theory Spec2Isabelle
  imports Main "HOL-Library.AList" "HOL-Library.List_Lexorder" "HOL-Library.Char_ord"
begin

section \<open>Output mode (package output)\<close>

text \<open>
  \<open>IsJSON\<close> and \<open>IsPretty\<close> read the process context through two library
  predicates on the file descriptor of standard output, \<open>isatty.IsTerminal\<close> and
  \<open>isatty.IsCygwinTerminal\<close>, and through the two persistent flags \<open>--json\<close> and
  \<open>--pretty\<close>. The context is the record below; the functions are transcribed
  branch by branch.
\<close>

record tty_context =
  IsTerminal :: bool
  IsCygwinTerminal :: bool
  json_flag :: bool
  pretty_flag :: bool

definition IsJSON :: "tty_context \<Rightarrow> bool" where
  "IsJSON cmd =
     (if \<not> IsTerminal cmd \<and> \<not> IsCygwinTerminal cmd then True
      else (let j = json_flag cmd; p = pretty_flag cmd in j \<or> p))"

definition IsPretty :: "tty_context \<Rightarrow> bool" where
  "IsPretty cmd =
     (let pretty = pretty_flag cmd in
      if \<not> pretty \<and> json_flag cmd \<and> IsTerminal cmd then True
      else pretty)"

text \<open>The decision the command layer derives from the two functions.\<close>

datatype output_mode = Structured bool | Display

definition ResolveOutputMode :: "tty_context \<Rightarrow> output_mode" where
  "ResolveOutputMode cmd = (if IsJSON cmd then Structured (IsPretty cmd) else Display)"

section \<open>Theorems: output mode\<close>

lemma IsJSON_iff:
  "IsJSON cmd \<longleftrightarrow> (\<not> (IsTerminal cmd \<or> IsCygwinTerminal cmd)) \<or> json_flag cmd \<or> pretty_flag cmd"
  by (auto simp: IsJSON_def Let_def)

lemma IsPretty_iff:
  "IsPretty cmd \<longleftrightarrow> pretty_flag cmd \<or> (json_flag cmd \<and> IsTerminal cmd)"
  by (auto simp: IsPretty_def Let_def)

lemma output_mode_table_real_terminal:
  "ResolveOutputMode \<lparr>IsTerminal = False, IsCygwinTerminal = False,
      json_flag = False, pretty_flag = False\<rparr> = Structured False"
  "ResolveOutputMode \<lparr>IsTerminal = True, IsCygwinTerminal = cyg,
      json_flag = False, pretty_flag = False\<rparr> = Display"
  "ResolveOutputMode \<lparr>IsTerminal = True, IsCygwinTerminal = cyg,
      json_flag = True, pretty_flag = False\<rparr> = Structured True"
  "ResolveOutputMode \<lparr>IsTerminal = True, IsCygwinTerminal = cyg,
      json_flag = False, pretty_flag = True\<rparr> = Structured True"
  by (simp_all add: ResolveOutputMode_def IsJSON_def IsPretty_def)

text \<open>
  Claim C2. The claim reads the context through one notion of an interactive
  destination: the mode is Structured with indented encoding for
  (interactive, json, not pretty). \<open>IsJSON\<close> counts a Cygwin/MSYS2 pseudo terminal as
  interactive (it is the case in which \<open>IsCygwinTerminal\<close> holds and \<open>IsTerminal\<close>
  does not), \<open>IsPretty\<close> asks \<open>IsTerminal\<close> alone. On such a terminal without flags
  the mode is Display, so the destination is interactive for the mode decision; with
  \<open>--json\<close> the mode is Structured with compact encoding, where the table of the
  claim gives the indented one.
\<close>

theorem IsPretty_misses_cygwin_terminal:
  "ResolveOutputMode \<lparr>IsTerminal = False, IsCygwinTerminal = True,
      json_flag = False, pretty_flag = False\<rparr> = Display \<and>
   IsJSON \<lparr>IsTerminal = False, IsCygwinTerminal = True,
      json_flag = True, pretty_flag = False\<rparr> \<and>
   \<not> IsPretty \<lparr>IsTerminal = False, IsCygwinTerminal = True,
      json_flag = True, pretty_flag = False\<rparr> \<and>
   ResolveOutputMode \<lparr>IsTerminal = False, IsCygwinTerminal = True,
      json_flag = True, pretty_flag = False\<rparr> = Structured False"
  by (simp add: ResolveOutputMode_def IsJSON_def IsPretty_def)

section \<open>Go strings: bytes and runes\<close>

text \<open>
  A Go \<open>string\<close> is a sequence of bytes, here a \<open>string\<close> of HOL (one \<open>char\<close> per
  byte). The conversion \<open>[]rune(s)\<close> decodes it as UTF-8, one rune for each well-formed
  sequence and the replacement rune \<open>U+FFFD\<close> for each byte that starts none; the
  conversion \<open>string(runes)\<close> encodes each rune again. Both belong to the Go runtime
  (package \<open>unicode/utf8\<close>); they are written out here, on byte values as natural
  numbers, because \<open>Truncate\<close> counts and cuts in runes. Masks and shifts of the
  library are written with \<open>mod\<close>, \<open>div\<close> and multiplication by powers of two.
\<close>

definition RuneError :: nat where
  "RuneError = 0xFFFD"

definition seq_size :: "nat \<Rightarrow> nat" where
  "seq_size p0 =
     (if p0 < 0xC2 then 0 else if p0 < 0xE0 then 2 else if p0 < 0xF0 then 3
      else if p0 < 0xF5 then 4 else 0)"

definition accept_lo :: "nat \<Rightarrow> nat" where
  "accept_lo p0 = (if p0 = 0xE0 then 0xA0 else if p0 = 0xF0 then 0x90 else 0x80)"

definition accept_hi :: "nat \<Rightarrow> nat" where
  "accept_hi p0 = (if p0 = 0xED then 0x9F else if p0 = 0xF4 then 0x8F else 0xBF)"

definition DecodeRune :: "nat list \<Rightarrow> nat \<times> nat" where
  "DecodeRune bs =
     (case bs of
        [] \<Rightarrow> (RuneError, 0)
      | p0 # rest \<Rightarrow>
          if p0 < 0x80 then (p0, 1)
          else
            let sz = seq_size p0 in
            if sz = 0 \<or> length bs < sz then (RuneError, 1)
            else
              let b1 = bs ! 1 in
              if b1 < accept_lo p0 \<or> accept_hi p0 < b1 then (RuneError, 1)
              else if sz \<le> 2 then ((p0 mod 32) * 64 + b1 mod 64, 2)
              else
                let b2 = bs ! 2 in
                if b2 < 0x80 \<or> 0xBF < b2 then (RuneError, 1)
                else if sz \<le> 3 then ((p0 mod 16) * 4096 + (b1 mod 64) * 64 + b2 mod 64, 3)
                else
                  let b3 = bs ! 3 in
                  if b3 < 0x80 \<or> 0xBF < b3 then (RuneError, 1)
                  else ((p0 mod 8) * 262144 + (b1 mod 64) * 4096 + (b2 mod 64) * 64
                          + b3 mod 64, 4))"

lemma DecodeRune_size_pos: "bs \<noteq> [] \<Longrightarrow> 0 < snd (DecodeRune bs)"
  by (cases bs) (simp_all add: DecodeRune_def Let_def)

function decode_runes :: "nat list \<Rightarrow> nat list" where
  "decode_runes bs =
     (if bs = [] then []
      else fst (DecodeRune bs) # decode_runes (drop (snd (DecodeRune bs)) bs))"
  by pat_completeness auto
termination
  by (relation "measure length") (auto simp: DecodeRune_size_pos)

declare decode_runes.simps [simp del]

definition EncodeRune :: "nat \<Rightarrow> nat list" where
  "EncodeRune r =
     (if r \<le> 0x7F then [r]
      else if r \<le> 0x7FF then [0xC0 + r div 64, 0x80 + r mod 64]
      else if 0x10FFFF < r \<or> (0xD800 \<le> r \<and> r \<le> 0xDFFF) then [0xEF, 0xBF, 0xBD]
      else if r \<le> 0xFFFF then
        [0xE0 + r div 4096, 0x80 + (r div 64) mod 64, 0x80 + r mod 64]
      else
        [0xF0 + r div 262144, 0x80 + (r div 4096) mod 64, 0x80 + (r div 64) mod 64,
         0x80 + r mod 64])"

text \<open>Runes a decoder can return: Unicode scalar values.\<close>

definition valid_rune :: "nat \<Rightarrow> bool" where
  "valid_rune r \<longleftrightarrow> r \<le> 0x10FFFF \<and> \<not> (0xD800 \<le> r \<and> r \<le> 0xDFFF)"

text \<open>Arithmetic of the continuation and lead bytes.\<close>

lemma mod_shift: "k * m \<le> b \<Longrightarrow> b < k * m + m \<Longrightarrow> b mod m = b - k * (m::nat)"
proof -
  assume a: "k * m \<le> b" "b < k * m + m"
  then have "b = m * k + (b - k * m)" by (simp add: mult.commute)
  then have "b mod m = (m * k + (b - k * m)) mod m" by simp
  also have "\<dots> = (b - k * m) mod m" by (simp only: mod_mult_self4)
  also have "\<dots> = b - k * m" using a by simp
  finally show ?thesis .
qed

lemma mod64_cont: "0x80 \<le> b \<Longrightarrow> b \<le> 0xBF \<Longrightarrow> b mod 64 = b - (128::nat)"
  using mod_shift [of 2 64 b] by simp

lemma mod32_lead2: "0xC0 \<le> p \<Longrightarrow> p < 0xE0 \<Longrightarrow> p mod 32 = p - (192::nat)"
  using mod_shift [of 6 32 p] by simp

lemma mod16_lead3: "0xE0 \<le> p \<Longrightarrow> p < 0xF0 \<Longrightarrow> p mod 16 = p - (224::nat)"
  using mod_shift [of 14 16 p] by simp

lemma mod8_lead4: "0xF0 \<le> p \<Longrightarrow> p < 0xF8 \<Longrightarrow> p mod 8 = p - (240::nat)"
  using mod_shift [of 30 8 p] by simp

lemma DecodeRune_1: "p0 < 0x80 \<Longrightarrow> DecodeRune (p0 # t) = (p0, 1)"
  by (simp add: DecodeRune_def)

lemma DecodeRune_2:
  "0xC2 \<le> p0 \<Longrightarrow> p0 < 0xE0 \<Longrightarrow> 0x80 \<le> b1 \<Longrightarrow> b1 \<le> 0xBF \<Longrightarrow>
   DecodeRune (p0 # b1 # t) = ((p0 - 192) * 64 + (b1 - 128), 2)"
  by (simp add: DecodeRune_def seq_size_def accept_lo_def accept_hi_def Let_def
      mod64_cont mod32_lead2)

lemma DecodeRune_3:
  "0xE0 \<le> p0 \<Longrightarrow> p0 < 0xF0 \<Longrightarrow> accept_lo p0 \<le> b1 \<Longrightarrow> b1 \<le> accept_hi p0 \<Longrightarrow>
   0x80 \<le> b2 \<Longrightarrow> b2 \<le> 0xBF \<Longrightarrow>
   DecodeRune (p0 # b1 # b2 # t) = ((p0 - 224) * 4096 + (b1 - 128) * 64 + (b2 - 128), 3)"
proof -
  assume a: "0xE0 \<le> p0" "p0 < 0xF0" "accept_lo p0 \<le> b1" "b1 \<le> accept_hi p0"
    "0x80 \<le> b2" "b2 \<le> 0xBF"
  have lo: "0x80 \<le> accept_lo p0" by (simp add: accept_lo_def)
  have hi: "accept_hi p0 \<le> 0xBF" by (simp add: accept_hi_def)
  have b1: "0x80 \<le> b1" "b1 \<le> 0xBF" using a lo hi by linarith+
  have sz: "seq_size p0 = 3" using a by (simp add: seq_size_def)
  show ?thesis
    using a b1 by (simp add: DecodeRune_def sz Let_def mod64_cont mod16_lead3)
qed

lemma DecodeRune_4:
  "0xF0 \<le> p0 \<Longrightarrow> p0 < 0xF5 \<Longrightarrow> accept_lo p0 \<le> b1 \<Longrightarrow> b1 \<le> accept_hi p0 \<Longrightarrow>
   0x80 \<le> b2 \<Longrightarrow> b2 \<le> 0xBF \<Longrightarrow> 0x80 \<le> b3 \<Longrightarrow> b3 \<le> 0xBF \<Longrightarrow>
   DecodeRune (p0 # b1 # b2 # b3 # t) =
     ((p0 - 240) * 262144 + (b1 - 128) * 4096 + (b2 - 128) * 64 + (b3 - 128), 4)"
proof -
  assume a: "0xF0 \<le> p0" "p0 < 0xF5" "accept_lo p0 \<le> b1" "b1 \<le> accept_hi p0"
    "0x80 \<le> b2" "b2 \<le> 0xBF" "0x80 \<le> b3" "b3 \<le> 0xBF"
  have lo: "0x80 \<le> accept_lo p0" by (simp add: accept_lo_def)
  have hi: "accept_hi p0 \<le> 0xBF" by (simp add: accept_hi_def)
  have b1: "0x80 \<le> b1" "b1 \<le> 0xBF" using a lo hi by linarith+
  have sz: "seq_size p0 = 4" using a by (simp add: seq_size_def)
  have p: "p0 < 0xF8" using a by simp
  show ?thesis
    using a b1 p by (simp add: DecodeRune_def sz Let_def mod64_cont mod8_lead4)
qed

lemma split64: "\<exists>a l. r = a * 64 + l \<and> l < (64::nat) \<and> r div 64 = a \<and> r mod 64 = l"
  by (rule exI [of _ "r div 64"], rule exI [of _ "r mod 64"]) simp

lemma split3:
  "\<exists>q m l. r = q * 4096 + m * 64 + l \<and> m < 64 \<and> l < (64::nat) \<and>
     r div 4096 = q \<and> (r div 64) mod 64 = m \<and> r mod 64 = l"
proof -
  have "r div 4096 = (r div 64) div 64"
    using div_mult2_eq [of r 64 64] by simp
  moreover have "r = ((r div 64) div 64) * 4096 + ((r div 64) mod 64) * 64 + r mod 64"
  proof -
    have "r = (r div 64) * 64 + r mod 64" by simp
    moreover have "r div 64 = ((r div 64) div 64) * 64 + (r div 64) mod 64" by simp
    ultimately show ?thesis by linarith
  qed
  moreover have "(r div 64) mod 64 < 64" "r mod 64 < 64" by simp_all
  ultimately show ?thesis by metis
qed

lemma split4:
  "\<exists>q m n l. r = q * 262144 + m * 4096 + n * 64 + l \<and> m < 64 \<and> n < 64 \<and> l < (64::nat) \<and>
     r div 262144 = q \<and> (r div 4096) mod 64 = m \<and> (r div 64) mod 64 = n \<and> r mod 64 = l"
proof -
  obtain a n l where a: "r = a * 4096 + n * 64 + l" "n < 64" "l < 64"
      "r div 4096 = a" "(r div 64) mod 64 = n" "r mod 64 = l"
    using split3 [of r] by blast
  have "r div 262144 = (r div 4096) div 64"
    using div_mult2_eq [of r 4096 64] by simp
  then have q: "r div 262144 = a div 64" using a by simp
  have "a = (a div 64) * 64 + a mod 64" by simp
  then have "r = (a div 64) * 262144 + (a mod 64) * 4096 + n * 64 + l"
    using a(1) by linarith
  moreover have "a mod 64 < 64" by simp
  moreover have "(r div 4096) mod 64 = a mod 64" by (simp only: a(4))
  ultimately show ?thesis
    using a(2,3,5,6) q by blast
qed

text \<open>What a rune becomes when it is encoded and decoded again.\<close>

definition fix_rune :: "nat \<Rightarrow> nat" where
  "fix_rune r = (if valid_rune r then r else RuneError)"

lemma DecodeRune_EncodeRune_1:
  "r \<le> 0x7F \<Longrightarrow> DecodeRune (EncodeRune r @ t) = (r, length (EncodeRune r))"
  by (simp add: EncodeRune_def DecodeRune_1)

lemma DecodeRune_EncodeRune_2:
  assumes "0x7F < r" "r \<le> 0x7FF"
  shows "DecodeRune (EncodeRune r @ t) = (r, length (EncodeRune r))"
proof -
  obtain a l where s: "r = a * 64 + l" "l < 64" "r div 64 = a" "r mod 64 = l"
    using split64 [of r] by blast
  have a: "2 \<le> a" "a < 32" using assms s(1,2) by linarith+
  have e: "EncodeRune r = [0xC0 + a, 0x80 + l]"
    using assms by (simp add: EncodeRune_def s(3,4))
  have d: "DecodeRune ((0xC0 + a) # (0x80 + l) # t) = (a * 64 + l, 2)"
    using DecodeRune_2 [of "0xC0 + a" "0x80 + l" t] a s(2) by simp
  show ?thesis by (simp add: e d s(1) [symmetric])
qed

lemma DecodeRune_RuneError_bytes: "DecodeRune ([0xEF, 0xBF, 0xBD] @ t) = (RuneError, 3)"
  using DecodeRune_3 [of "0xEF" "0xBF" "0xBD" t]
  by (simp add: accept_lo_def accept_hi_def RuneError_def)

lemma DecodeRune_EncodeRune_3:
  assumes "0x7FF < r" "r \<le> 0xFFFF" "\<not> (0xD800 \<le> r \<and> r \<le> 0xDFFF)"
  shows "DecodeRune (EncodeRune r @ t) = (r, length (EncodeRune r))"
proof -
  obtain q m l where s: "r = q * 4096 + m * 64 + l" "m < 64" "l < 64"
      "r div 4096 = q" "(r div 64) mod 64 = m" "r mod 64 = l"
    using split3 [of r] by blast
  have q: "q < 16" using assms s(1,2,3) by linarith
  have e: "EncodeRune r = [0xE0 + q, 0x80 + m, 0x80 + l]"
    using assms by (auto simp: EncodeRune_def s(4,5,6))
  have lo: "accept_lo (0xE0 + q) \<le> 0x80 + m"
  proof (cases "q = 0")
    case True
    then have "32 \<le> m" using assms(1) s(1,3) by linarith
    then show ?thesis using True q by (simp add: accept_lo_def)
  next
    case False
    then show ?thesis using q by (simp add: accept_lo_def)
  qed
  have hi: "0x80 + m \<le> accept_hi (0xE0 + q)"
  proof (cases "q = 13")
    case True
    then have "r \<le> 0xDFFF" using s(1,2,3) by linarith
    with assms(3) have "r < 0xD800" by simp
    then have "m < 32" using True s(1) by linarith
    then show ?thesis using True q by (simp add: accept_hi_def)
  next
    case False
    then show ?thesis using s(2) q by (simp add: accept_hi_def)
  qed
  have d: "DecodeRune ((0xE0 + q) # (0x80 + m) # (0x80 + l) # t) = (q * 4096 + m * 64 + l, 3)"
    using DecodeRune_3 [of "0xE0 + q" "0x80 + m" "0x80 + l" t] q s(3) lo hi by simp
  show ?thesis by (simp add: e d s(1) [symmetric])
qed

lemma DecodeRune_EncodeRune_4:
  assumes "0xFFFF < r" "r \<le> 0x10FFFF"
  shows "DecodeRune (EncodeRune r @ t) = (r, length (EncodeRune r))"
proof -
  obtain q m n l where s: "r = q * 262144 + m * 4096 + n * 64 + l" "m < 64" "n < 64" "l < 64"
      "r div 262144 = q" "(r div 4096) mod 64 = m" "(r div 64) mod 64 = n" "r mod 64 = l"
    using split4 [of r] by blast
  have q: "q < 5" using assms s(1,2,3,4) by linarith
  have e: "EncodeRune r = [0xF0 + q, 0x80 + m, 0x80 + n, 0x80 + l]"
    using assms by (simp add: EncodeRune_def s(5,6,7,8))
  have lo: "accept_lo (0xF0 + q) \<le> 0x80 + m"
  proof (cases "q = 0")
    case True
    then have "16 \<le> m" using assms(1) s(1,3,4) by linarith
    then show ?thesis using True q by (simp add: accept_lo_def)
  next
    case False
    then show ?thesis using q by (simp add: accept_lo_def)
  qed
  have hi: "0x80 + m \<le> accept_hi (0xF0 + q)"
  proof (cases "q = 4")
    case True
    then have "m < 16" using assms(2) s(1) by linarith
    then show ?thesis using True q by (simp add: accept_hi_def)
  next
    case False
    then show ?thesis using s(2) q by (simp add: accept_hi_def)
  qed
  have d: "DecodeRune ((0xF0 + q) # (0x80 + m) # (0x80 + n) # (0x80 + l) # t) =
      (q * 262144 + m * 4096 + n * 64 + l, 4)"
    using DecodeRune_4 [of "0xF0 + q" "0x80 + m" "0x80 + n" "0x80 + l" t] q s(3,4) lo hi
    by simp
  show ?thesis by (simp add: e d s(1) [symmetric])
qed

lemma DecodeRune_EncodeRune:
  "DecodeRune (EncodeRune r @ t) = (fix_rune r, length (EncodeRune r))"
proof (cases "valid_rune r")
  case True
  then have v: "r \<le> 0x10FFFF" "\<not> (0xD800 \<le> r \<and> r \<le> 0xDFFF)"
    by (simp_all add: valid_rune_def)
  consider "r \<le> 0x7F" | "0x7F < r" "r \<le> 0x7FF" | "0x7FF < r" "r \<le> 0xFFFF" | "0xFFFF < r"
    by linarith
  then have "DecodeRune (EncodeRune r @ t) = (r, length (EncodeRune r))"
    using v DecodeRune_EncodeRune_1 DecodeRune_EncodeRune_2 DecodeRune_EncodeRune_3
      DecodeRune_EncodeRune_4 by cases blast+
  then show ?thesis using True by (simp add: fix_rune_def)
next
  case False
  then have "EncodeRune r = [0xEF, 0xBF, 0xBD]"
    by (auto simp: valid_rune_def EncodeRune_def)
  then show ?thesis
    using False DecodeRune_RuneError_bytes [of t] by (simp add: fix_rune_def)
qed

lemma valid_RuneError: "valid_rune RuneError"
  by (simp add: valid_rune_def RuneError_def)

lemma DecodeRune_valid: "valid_rune (fst (DecodeRune bs))"
proof (cases bs)
  case Nil
  then show ?thesis by (simp add: DecodeRune_def valid_RuneError)
next
  case (Cons p0 t)
  show ?thesis
  proof (cases "fst (DecodeRune bs) = RuneError")
    case True
    then show ?thesis by (simp add: valid_RuneError)
  next
    case False
    consider (a) "p0 < 0x80" | (b) "0xC2 \<le> p0" "p0 < 0xE0" | (c) "0xE0 \<le> p0" "p0 < 0xF0"
      | (d) "0xF0 \<le> p0" "p0 < 0xF5" | (e) "0x80 \<le> p0" "p0 < 0xC2" | (f) "0xF5 \<le> p0"
      by linarith
    then show ?thesis
    proof cases
      case a
      then show ?thesis using Cons by (simp add: DecodeRune_1 valid_rune_def)
    next
      case e
      then show ?thesis using False Cons by (simp add: DecodeRune_def seq_size_def)
    next
      case f
      then show ?thesis using False Cons by (simp add: DecodeRune_def seq_size_def)
    next
      case b
      then have sz: "seq_size p0 = 2" by (simp add: seq_size_def)
      have acc: "accept_lo p0 = 0x80" "accept_hi p0 = 0xBF"
        using b by (simp_all add: accept_lo_def accept_hi_def)
      obtain b1 t1 where t: "t = b1 # t1"
        using False Cons b by (cases t) (simp_all add: DecodeRune_def sz)
      have g: "0x80 \<le> b1" "b1 \<le> 0xBF"
        using False Cons b t by (auto simp: DecodeRune_def sz acc Let_def split: if_splits)
      have "DecodeRune bs = ((p0 - 192) * 64 + (b1 - 128), 2)"
        using DecodeRune_2 [OF b g] Cons t by simp
      moreover have "(p0 - 192) * 64 + (b1 - 128) \<le> 0x7FF" using b g by linarith
      ultimately show ?thesis by (simp add: valid_rune_def)
    next
      case c
      then have sz: "seq_size p0 = 3" by (simp add: seq_size_def)
      obtain b1 b2 t2 where t: "t = b1 # b2 # t2"
      proof (cases t)
        case Nil
        then show ?thesis using False Cons c by (simp add: DecodeRune_def sz)
      next
        case (Cons x xs)
        then show ?thesis using False \<open>bs = p0 # t\<close> c that
          by (cases xs) (simp_all add: DecodeRune_def sz)
      qed
      have g: "accept_lo p0 \<le> b1" "b1 \<le> accept_hi p0" "0x80 \<le> b2" "b2 \<le> 0xBF"
        using False Cons c t by (auto simp: DecodeRune_def sz Let_def split: if_splits)
      have d: "DecodeRune bs = ((p0 - 224) * 4096 + (b1 - 128) * 64 + (b2 - 128), 3)"
        using DecodeRune_3 [OF c g] Cons t by simp
      have lo: "0x80 \<le> accept_lo p0" by (simp add: accept_lo_def)
      have hi: "accept_hi p0 \<le> 0xBF" by (simp add: accept_hi_def)
      have u: "(p0 - 224) * 4096 + (b1 - 128) * 64 + (b2 - 128) \<le> 0xFFFF"
        using c g lo hi by linarith
      have "\<not> (0xD800 \<le> (p0 - 224) * 4096 + (b1 - 128) * 64 + (b2 - 128) \<and>
               (p0 - 224) * 4096 + (b1 - 128) * 64 + (b2 - 128) \<le> 0xDFFF)"
      proof (cases "p0 = 0xED")
        case True
        then have "b1 \<le> 0x9F" using g(2) by (simp add: accept_hi_def)
        then have "(p0 - 224) * 4096 + (b1 - 128) * 64 + (b2 - 128) < 0xD800"
          using True g by simp
        then show ?thesis by linarith
      next
        case False
        then consider "p0 < 0xED" | "0xED < p0" by linarith
        then show ?thesis
        proof cases
          case 1
          then have "(p0 - 224) * 4096 + (b1 - 128) * 64 + (b2 - 128) < 0xD800"
            using c g lo hi by linarith
          then show ?thesis by linarith
        next
          case 2
          then have "0xDFFF < (p0 - 224) * 4096 + (b1 - 128) * 64 + (b2 - 128)"
            using c by linarith
          then show ?thesis by linarith
        qed
      qed
      then show ?thesis using d u by (simp add: valid_rune_def)
    next
      case d
      then have sz: "seq_size p0 = 4" by (simp add: seq_size_def)
      obtain b1 b2 b3 t3 where t: "t = b1 # b2 # b3 # t3"
      proof (cases t)
        case Nil
        then show ?thesis using False Cons d by (simp add: DecodeRune_def sz)
      next
        case c1: (Cons x xs)
        show ?thesis
        proof (cases xs)
          case Nil
          then show ?thesis using False \<open>bs = p0 # t\<close> d c1 by (simp add: DecodeRune_def sz)
        next
          case c2: (Cons y ys)
          then show ?thesis using False \<open>bs = p0 # t\<close> d c1 that
            by (cases ys) (simp_all add: DecodeRune_def sz)
        qed
      qed
      have g: "accept_lo p0 \<le> b1" "b1 \<le> accept_hi p0" "0x80 \<le> b2" "b2 \<le> 0xBF"
          "0x80 \<le> b3" "b3 \<le> 0xBF"
        using False Cons d t by (auto simp: DecodeRune_def sz Let_def split: if_splits)
      have dd: "DecodeRune bs =
          ((p0 - 240) * 262144 + (b1 - 128) * 4096 + (b2 - 128) * 64 + (b3 - 128), 4)"
        using DecodeRune_4 [OF d g] Cons t by simp
      have lo: "0x80 \<le> accept_lo p0" by (simp add: accept_lo_def)
      have hi: "accept_hi p0 \<le> 0xBF" by (simp add: accept_hi_def)
      have low: "0xFFFF < (p0 - 240) * 262144 + (b1 - 128) * 4096 + (b2 - 128) * 64 + (b3 - 128)"
      proof (cases "p0 = 0xF0")
        case True
        then have "0x90 \<le> b1" using g(1) by (simp add: accept_lo_def)
        then show ?thesis by linarith
      next
        case False
        then have "0xF1 \<le> p0" using d by linarith
        then show ?thesis by linarith
      qed
      have up: "(p0 - 240) * 262144 + (b1 - 128) * 4096 + (b2 - 128) * 64 + (b3 - 128) \<le> 0x10FFFF"
      proof (cases "p0 = 0xF4")
        case True
        then have "b1 \<le> 0x8F" using g(2) by (simp add: accept_hi_def)
        then show ?thesis using True g by simp
      next
        case False
        then have "p0 \<le> 0xF3" using d by linarith
        then show ?thesis using g hi by linarith
      qed
      show ?thesis using dd low up by (simp add: valid_rune_def)
    qed
  qed
qed

section \<open>Scalar formatting helpers (package output)\<close>

text \<open>
  A run-time panic of Go is a value of the type \<open>panic\<close>; a function that can panic
  returns \<open>panic + 'a\<close>. \<open>Truncate\<close> slices \<open>runes[:maxLen-1]\<close>: the slice
  expression panics when the bound is negative (the upper bound is below the length in
  that branch).
\<close>

definition runes_of :: "string \<Rightarrow> nat list" where
  "runes_of s = decode_runes (map of_char s)"

definition string_of_runes :: "nat list \<Rightarrow> string" where
  "string_of_runes rs = map char_of (concat (map EncodeRune rs))"

datatype panic = SliceBoundsOutOfRange | NilPointerDereference

definition ellipsis :: string where
  "ellipsis = [CHR 0xE2, CHR 0x80, CHR 0xA6]"

definition Truncate :: "string \<Rightarrow> int \<Rightarrow> panic + string" where
  "Truncate s maxLen =
     (let runes = runes_of s in
      if int (length runes) \<le> maxLen then Inr s
      else if maxLen - 1 < 0 then Inl SliceBoundsOutOfRange
      else Inr (string_of_runes (take (nat (maxLen - 1)) runes) @ ellipsis))"

text \<open>
  \<open>FormatTime\<close> and \<open>FormatDate\<close> call \<open>time.Parse\<close> and
  \<open>t.UTC().Format\<close> of the standard library. The two are parameters of the model:
  \<open>time_Parse layout value\<close> is \<open>None\<close> where the library returns an error, and
  \<open>utc_Format t layout\<close> is the text of \<open>t.UTC().Format(layout)\<close>. A nil
  \<open>*string\<close> is \<open>None\<close>. \<open>FormatDate\<close> slices the result of \<open>FormatTime\<close> to
  its first ten bytes, which panics on a shorter string.
\<close>

definition RFC3339 :: string where
  "RFC3339 = ''2006-01-02T15:04:05Z07:00''"

definition FormatTime ::
  "(string \<Rightarrow> string \<Rightarrow> 't option) \<Rightarrow> ('t \<Rightarrow> string \<Rightarrow> string) \<Rightarrow> string \<Rightarrow> panic + string" where
  "FormatTime time_Parse utc_Format s =
     (if s = [] then Inr ''-''
      else
        (case time_Parse RFC3339 s of
           Some t \<Rightarrow> Inr (utc_Format t ''2006-01-02 15:04'')
         | None \<Rightarrow>
             (case time_Parse ''2006-01-02T15:04:05.000Z'' s of
                Some t \<Rightarrow> Inr (utc_Format t ''2006-01-02 15:04'')
              | None \<Rightarrow> Truncate s 16)))"

definition FormatDate ::
  "(string \<Rightarrow> string \<Rightarrow> 't option) \<Rightarrow> ('t \<Rightarrow> string \<Rightarrow> string) \<Rightarrow> string option \<Rightarrow>
     panic + string" where
  "FormatDate time_Parse utc_Format s =
     (case s of
        None \<Rightarrow> Inr ''-''
      | Some v \<Rightarrow>
          if v = [] then Inr ''-''
          else
            (case FormatTime time_Parse utc_Format v of
               Inl p \<Rightarrow> Inl p
             | Inr r \<Rightarrow>
                 (if length r < 10 then Inl SliceBoundsOutOfRange else Inr (take 10 r))))"

section \<open>Theorems: runes and truncation\<close>

lemma EncodeRune_nonempty: "EncodeRune r \<noteq> []"
  by (simp add: EncodeRune_def)

lemma EncodeRune_byte: "b \<in> set (EncodeRune r) \<Longrightarrow> b < 256"
proof -
  assume b: "b \<in> set (EncodeRune r)"
  obtain a l where s2: "l < 64" "r div 64 = a" "r mod 64 = l" "r = a * 64 + l"
    using split64 [of r] by blast
  obtain q m l' where s3: "r = q * 4096 + m * 64 + l'" "m < 64" "l' < 64"
      "r div 4096 = q" "(r div 64) mod 64 = m" "r mod 64 = l'"
    using split3 [of r] by blast
  obtain q4 m4 n4 l4 where s4: "r = q4 * 262144 + m4 * 4096 + n4 * 64 + l4" "m4 < 64" "n4 < 64"
      "l4 < 64" "r div 262144 = q4" "(r div 4096) mod 64 = m4" "(r div 64) mod 64 = n4"
      "r mod 64 = l4"
    using split4 [of r] by blast
  consider (a) "r \<le> 0x7F" | (b) "0x7F < r" "r \<le> 0x7FF"
    | (x) "0x7FF < r" "0x10FFFF < r \<or> (0xD800 \<le> r \<and> r \<le> 0xDFFF)"
    | (c) "0x7FF < r" "\<not> (0x10FFFF < r \<or> (0xD800 \<le> r \<and> r \<le> 0xDFFF))" "r \<le> 0xFFFF"
    | (d) "0xFFFF < r" "\<not> (0x10FFFF < r \<or> (0xD800 \<le> r \<and> r \<le> 0xDFFF))"
    by linarith
  then show ?thesis
  proof cases
    case a
    then show ?thesis using b by (simp add: EncodeRune_def)
  next
    case b2: b
    then have "a < 32" using s2(1,4) by linarith
    moreover have "EncodeRune r = [0xC0 + a, 0x80 + l]"
      using b2 by (simp add: EncodeRune_def s2(2,3))
    ultimately show ?thesis using b s2(1) by auto
  next
    case x
    then have "EncodeRune r = [0xEF, 0xBF, 0xBD]" by (auto simp: EncodeRune_def)
    then show ?thesis using b by auto
  next
    case c
    then have "q < 16" using s3(1,2,3) by linarith
    moreover have "EncodeRune r = [0xE0 + q, 0x80 + m, 0x80 + l']"
      using c by (auto simp: EncodeRune_def s3(4,5,6))
    ultimately show ?thesis using b s3(2,3) by auto
  next
    case d
    then have "q4 < 5" using s4(1,2,3,4) by linarith
    moreover have "EncodeRune r = [0xF0 + q4, 0x80 + m4, 0x80 + n4, 0x80 + l4]"
      using d by (auto simp: EncodeRune_def s4(5,6,7,8))
    ultimately show ?thesis using b s4(2,3,4) by auto
  qed
qed

lemma of_char_char_of_bytes: "\<forall>b \<in> set bs. b < 256 \<Longrightarrow> map of_char (map char_of bs) = (bs :: nat list)"
  by (induction bs) simp_all

lemma decode_runes_Nil: "decode_runes [] = []"
  by (simp add: decode_runes.simps)

lemma decode_runes_encoded:
  "decode_runes (concat (map EncodeRune rs) @ t) = map fix_rune rs @ decode_runes t"
proof (induction rs)
  case Nil
  then show ?case by simp
next
  case (Cons r rs)
  have "decode_runes (EncodeRune r @ (concat (map EncodeRune rs) @ t)) =
      fix_rune r # decode_runes (concat (map EncodeRune rs) @ t)"
    by (subst decode_runes.simps) (simp add: EncodeRune_nonempty DecodeRune_EncodeRune)
  then show ?case using Cons.IH by simp
qed

lemma decode_runes_valid: "r \<in> set (decode_runes bs) \<Longrightarrow> valid_rune r"
proof (induction bs rule: decode_runes.induct)
  case (1 bs)
  show ?case
  proof (cases "bs = []")
    case True
    then show ?thesis using "1.prems" by (simp add: decode_runes_Nil)
  next
    case False
    then have "decode_runes bs =
        fst (DecodeRune bs) # decode_runes (drop (snd (DecodeRune bs)) bs)"
      by (subst decode_runes.simps) simp
    then have "r = fst (DecodeRune bs) \<or> r \<in> set (decode_runes (drop (snd (DecodeRune bs)) bs))"
      using "1.prems" by simp
    then show ?thesis using "1.IH" [OF False] DecodeRune_valid [of bs] by blast
  qed
qed

lemma length_decode_runes: "length (decode_runes bs) \<le> length bs"
proof (induction bs rule: decode_runes.induct)
  case (1 bs)
  show ?case
  proof (cases "bs = []")
    case True
    then show ?thesis by (simp add: decode_runes_Nil)
  next
    case False
    then have e: "decode_runes bs =
        fst (DecodeRune bs) # decode_runes (drop (snd (DecodeRune bs)) bs)"
      by (subst decode_runes.simps) simp
    have "0 < snd (DecodeRune bs)" using False by (rule DecodeRune_size_pos)
    then have "length (drop (snd (DecodeRune bs)) bs) < length bs" using False by simp
    then show ?thesis using "1.IH" [OF False] e by simp
  qed
qed

lemma map_fix_rune_valid: "\<forall>r \<in> set rs. valid_rune r \<Longrightarrow> map fix_rune rs = rs"
  by (induction rs) (simp_all add: fix_rune_def)

lemma runes_of_string_of_runes:
  "runes_of (string_of_runes rs @ t) = map fix_rune rs @ runes_of t"
proof -
  have "\<forall>b \<in> set (concat (map EncodeRune rs)). b < 256"
    using EncodeRune_byte by auto
  then have "map of_char (string_of_runes rs) = concat (map EncodeRune rs)"
    unfolding string_of_runes_def by (rule of_char_char_of_bytes)
  then show ?thesis
    by (simp add: runes_of_def decode_runes_encoded)
qed

lemma runes_of_ellipsis: "runes_of ellipsis = [0x2026]"
proof -
  have "string_of_runes [0x2026] = ellipsis"
    by (simp add: string_of_runes_def EncodeRune_def ellipsis_def char_of_def bit_iff_odd)
  moreover have "runes_of (string_of_runes [0x2026] @ []) = map fix_rune [0x2026] @ runes_of []"
    by (rule runes_of_string_of_runes)
  ultimately show ?thesis
    by (simp add: fix_rune_def valid_rune_def runes_of_def decode_runes_Nil)
qed

lemma length_runes_of: "length (runes_of s) \<le> length s"
  using length_decode_runes [of "map of_char s"] by (simp add: runes_of_def)

lemma Truncate_short: "int (length s) \<le> n \<Longrightarrow> Truncate s n = Inr s"
  using length_runes_of [of s] by (simp add: Truncate_def)

text \<open>
  Claim C9. For every string \<open>s\<close> and every \<open>n \<ge> 1\<close>, \<open>Truncate s n\<close> returns (it
  does not panic) a string of at most \<open>n\<close> runes; it is \<open>s\<close> itself when \<open>s\<close> has
  at most \<open>n\<close> runes; otherwise it is the encoding of the first \<open>n - 1\<close> runes of
  \<open>s\<close> followed by the ellipsis, and it decodes to exactly these whole runes and the one
  marker \<open>U+2026\<close>: no multi-byte character is cut.
\<close>

theorem Truncate_spec:
  assumes "1 \<le> n"
  shows "\<exists>t. Truncate s n = Inr t \<and> int (length (runes_of t)) \<le> n \<and>
           (int (length (runes_of s)) \<le> n \<longrightarrow> t = s) \<and>
           (n < int (length (runes_of s)) \<longrightarrow>
              t = string_of_runes (take (nat (n - 1)) (runes_of s)) @ ellipsis \<and>
              runes_of t = take (nat (n - 1)) (runes_of s) @ [0x2026])"
proof (cases "int (length (runes_of s)) \<le> n")
  case True
  then show ?thesis by (simp add: Truncate_def)
next
  case False
  let ?rs = "take (nat (n - 1)) (runes_of s)"
  let ?t = "string_of_runes ?rs @ ellipsis"
  have t: "Truncate s n = Inr ?t"
    using False assms by (simp add: Truncate_def Let_def)
  have "\<forall>r \<in> set ?rs. valid_rune r"
    using decode_runes_valid by (auto simp: runes_of_def dest: in_set_takeD)
  then have "map fix_rune ?rs = ?rs" by (rule map_fix_rune_valid)
  then have r: "runes_of ?t = ?rs @ [0x2026]"
    by (simp add: runes_of_string_of_runes runes_of_ellipsis)
  have "length ?rs = nat (n - 1)" using False by simp
  then have "int (length (runes_of ?t)) = n" using r assms by simp
  then show ?thesis using t r False by simp
qed

theorem Truncate_spec_witness:
  "(1::int) \<le> 3 \<and>
   Truncate [CHR ''a'', CHR 0xC3, CHR 0xA9, CHR ''b'', CHR ''c''] 3 =
     Inr [CHR ''a'', CHR 0xC3, CHR 0xA9, CHR 0xE2, CHR 0x80, CHR 0xA6] \<and>
   runes_of [CHR ''a'', CHR 0xC3, CHR 0xA9, CHR 0xE2, CHR 0x80, CHR 0xA6] = [0x61, 0xE9, 0x2026]"
proof -
  have h: "(1::int) \<le> 3" by simp
  have rs: "runes_of [CHR ''a'', CHR 0xC3, CHR 0xA9, CHR ''b'', CHR ''c''] = [0x61, 0xE9, 0x62, 0x63]"
    by (simp add: runes_of_def decode_runes.simps DecodeRune_def seq_size_def accept_lo_def
        accept_hi_def Let_def)
  have e: "string_of_runes [0x61, 0xE9] = [CHR ''a'', CHR 0xC3, CHR 0xA9]"
    by (simp add: string_of_runes_def EncodeRune_def char_of_def bit_iff_odd)
  show ?thesis
    using h Truncate_spec [OF h, of "[CHR ''a'', CHR 0xC3, CHR 0xA9, CHR ''b'', CHR ''c'']"]
    by (auto simp: rs e ellipsis_def)
qed

section \<open>Theorems: timestamps and dates\<close>

lemma FormatTime_empty: "FormatTime time_Parse utc_Format [] = Inr ''-''"
  by (simp add: FormatTime_def)

lemma FormatTime_total: "\<exists>r. FormatTime time_Parse utc_Format s = Inr r"
proof -
  have "\<exists>r. Truncate s 16 = Inr r" using Truncate_spec [of 16 s] by auto
  then show ?thesis by (auto simp: FormatTime_def split: option.splits)
qed

lemma FormatTime_parsed:
  "s \<noteq> [] \<Longrightarrow> time_Parse RFC3339 s = Some t \<Longrightarrow>
   FormatTime time_Parse utc_Format s = Inr (utc_Format t ''2006-01-02 15:04'')"
  "s \<noteq> [] \<Longrightarrow> time_Parse RFC3339 s = None \<Longrightarrow>
   time_Parse ''2006-01-02T15:04:05.000Z'' s = Some t \<Longrightarrow>
   FormatTime time_Parse utc_Format s = Inr (utc_Format t ''2006-01-02 15:04'')"
  by (simp_all add: FormatTime_def)

lemma FormatTime_unparseable:
  "s \<noteq> [] \<Longrightarrow> time_Parse RFC3339 s = None \<Longrightarrow>
   time_Parse ''2006-01-02T15:04:05.000Z'' s = None \<Longrightarrow>
   FormatTime time_Parse utc_Format s = Truncate s 16"
  by (simp add: FormatTime_def)

lemma FormatDate_absent:
  "FormatDate time_Parse utc_Format None = Inr ''-''"
  "FormatDate time_Parse utc_Format (Some []) = Inr ''-''"
  by (simp_all add: FormatDate_def)

text \<open>
  Claim C5. \<open>FormatTime\<close> never fails (lemma \<open>FormatTime_total\<close>), but
  \<open>FormatDate\<close> does: for a present, non-empty value of fewer than ten bytes that the
  library parses under neither layout, \<open>FormatTime\<close> falls back to the raw value and
  the slice \<open>[:10]\<close> of \<open>FormatDate\<close> panics instead of giving the truncated raw
  display.
\<close>

theorem FormatDate_short_unparseable_panics:
  assumes "s \<noteq> []" and "length s < 10"
    and "time_Parse RFC3339 s = None"
    and "time_Parse ''2006-01-02T15:04:05.000Z'' s = None"
  shows "FormatTime time_Parse utc_Format s = Inr s \<and>
         FormatDate time_Parse utc_Format (Some s) = Inl SliceBoundsOutOfRange"
proof -
  have "Truncate s 16 = Inr s" using assms(2) by (intro Truncate_short) simp
  then have "FormatTime time_Parse utc_Format s = Inr s"
    using assms by (simp add: FormatTime_unparseable)
  then show ?thesis using assms(1,2) by (simp add: FormatDate_def)
qed

theorem FormatDate_short_unparseable_panics_witness:
  "FormatTime (\<lambda>layout v. (None :: unit option)) (\<lambda>t layout. []) ''abc'' = Inr ''abc'' \<and>
   FormatDate (\<lambda>layout v. (None :: unit option)) (\<lambda>t layout. []) (Some ''abc'') =
     Inl SliceBoundsOutOfRange"
  using FormatDate_short_unparseable_panics
    [of "''abc''" "\<lambda>layout v. (None :: unit option)" "\<lambda>t layout. []"]
  by simp

section \<open>Request engine: parameters and addresses (package api)\<close>

text \<open>
  \<open>url.Values\<close> is a Go map from a key to a slice of values. It is an association
  list with one entry for each key; the order of the entries is the order in which a
  \<open>range\<close> loop of one run visits the map (Go leaves it unspecified). \<open>Set\<close>
  replaces the slice of a key by one value, \<open>Add\<close> appends to it. A nil map is the
  empty list.
\<close>

type_synonym Values = "(string \<times> string list) list"

definition Values_lookup :: "Values \<Rightarrow> string \<Rightarrow> string list" where
  "Values_lookup v k = (case map_of v k of None \<Rightarrow> [] | Some vs \<Rightarrow> vs)"

definition Values_Set :: "string \<Rightarrow> string \<Rightarrow> Values \<Rightarrow> Values" where
  "Values_Set k x v = AList.update k [x] v"

definition Values_Add :: "string \<Rightarrow> string \<Rightarrow> Values \<Rightarrow> Values" where
  "Values_Add k x v = AList.update k (Values_lookup v k @ [x]) v"

text \<open>
  The loop \<open>for k, vs := range params { for _, v := range vs { q.Set(k, v) } }\<close>, which
  \<open>buildURL\<close>, \<open>CreateBoard\<close> and \<open>CreateCard\<close> share.
\<close>

definition set_each :: "string \<Rightarrow> string list \<Rightarrow> Values \<Rightarrow> Values" where
  "set_each k vs q = fold (Values_Set k) vs q"

definition range_set :: "Values \<Rightarrow> Values \<Rightarrow> Values" where
  "range_set params q = fold (\<lambda>(k, vs). set_each k vs) params q"

text \<open>
  \<open>Values.Encode\<close> of package \<open>net/url\<close>: the keys in sorted order, one
  \<open>key=value\<close> for each value of a key, joined by \<open>&\<close>, keys and values escaped
  by \<open>QueryEscape\<close>. \<open>query_pairs\<close> are the pairs it writes, in its order.
\<close>

definition upperhex :: string where
  "upperhex = ''0123456789ABCDEF''"

definition is_alnum :: "char \<Rightarrow> bool" where
  "is_alnum c =
     (let n = (of_char c :: nat) in
      (0x61 \<le> n \<and> n \<le> 0x7A) \<or> (0x41 \<le> n \<and> n \<le> 0x5A) \<or> (0x30 \<le> n \<and> n \<le> 0x39))"

definition shouldEscape :: "char \<Rightarrow> bool" where
  "shouldEscape c =
     (if is_alnum c then False
      else if c = CHR ''-'' \<or> c = CHR ''_'' \<or> c = CHR ''.'' \<or> c = CHR ''~'' then False
      else True)"

fun QueryEscape :: "string \<Rightarrow> string" where
  "QueryEscape [] = []"
| "QueryEscape (c # cs) =
     (if c = CHR '' '' then CHR ''+'' # QueryEscape cs
      else if shouldEscape c then
        CHR ''%'' # upperhex ! (of_char c div 16) # upperhex ! (of_char c mod 16) # QueryEscape cs
      else c # QueryEscape cs)"

definition query_pairs :: "Values \<Rightarrow> (string \<times> string) list" where
  "query_pairs v = concat (map (\<lambda>k. map (Pair k) (Values_lookup v k)) (sort (map fst v)))"

fun join_amp :: "string list \<Rightarrow> string" where
  "join_amp [] = []"
| "join_amp [p] = p"
| "join_amp (p # ps) = p @ ''&'' @ join_amp ps"

definition Encode :: "Values \<Rightarrow> string" where
  "Encode v = join_amp (map (\<lambda>(k, x). QueryEscape k @ ''='' @ QueryEscape x) (query_pairs v))"

text \<open>
  \<open>url.Parse\<close> is a parameter of the model (\<open>None\<close> where the library returns
  a nil URL and an error). Of a parsed URL the record keeps what \<open>URL.String\<close> prints:
  the text before the query (\<open>Head\<close>: scheme, host and escaped path), the query, the
  flag that forces a \<open>?\<close>, and the text after the query (\<open>Tail\<close>: the fragment
  with its \<open>#\<close>, or nothing).
\<close>

record URL =
  Head :: string
  RawQuery :: string
  ForceQuery :: bool
  Tail :: string

definition URL_String :: "URL \<Rightarrow> string" where
  "URL_String u =
     Head u @ (if ForceQuery u \<or> RawQuery u \<noteq> [] then ''?'' @ RawQuery u else []) @ Tail u"

record Client =
  apiKey :: string
  apiToken :: string

definition apiBase :: string where
  "apiBase = ''https://api.trello.com/1''"

text \<open>
  \<open>buildURL\<close> drops the error of \<open>url.Parse\<close> and assigns to \<open>u.RawQuery\<close>:
  on a nil \<open>u\<close> the assignment panics.
\<close>

definition authParams :: "Client \<Rightarrow> Values" where
  "authParams c = (let p = []; p = Values_Set ''key'' (apiKey c) p; p = Values_Set ''token'' (apiToken c) p in p)"

definition buildURL :: "(string \<Rightarrow> URL option) \<Rightarrow> Client \<Rightarrow> string \<Rightarrow> Values \<Rightarrow> panic + string" where
  "buildURL url_Parse c path params =
     (let u = url_Parse (apiBase @ path);
          q = authParams c;
          q = range_set params q
      in case u of
           None \<Rightarrow> Inl NilPointerDereference
         | Some u \<Rightarrow> Inr (URL_String (u\<lparr>RawQuery := Encode q\<rparr>)))"

text \<open>
  \<open>buildParams\<close> of the command layer: the loop over the pairs
  \<open>(pairs[i], pairs[i+1])\<close> for \<open>i = 0, 2, ...\<close> while \<open>i+1 < len(pairs)\<close>.
\<close>

fun buildParams_loop :: "string list \<Rightarrow> Values \<Rightarrow> Values" where
  "buildParams_loop (k # x # rest) p =
     buildParams_loop rest (if x \<noteq> [] then Values_Set k x p else p)"
| "buildParams_loop rest p = p"

definition buildParams :: "string list \<Rightarrow> Values" where
  "buildParams pairs = buildParams_loop pairs []"

text \<open>\<open>fmt.Sprintf("%d", i)\<close>.\<close>

fun digits :: "nat \<Rightarrow> string" where
  "digits n =
     (if n < 10 then [''0123456789'' ! n]
      else digits (n div 10) @ [''0123456789'' ! (n mod 10)])"

declare digits.simps [simp del]

definition fmt_d :: "int \<Rightarrow> string" where
  "fmt_d i = (if i < 0 then CHR ''-'' # digits (nat (- i)) else digits (nat i))"

text \<open>
  The parameters that \<open>CreateBoard\<close>, \<open>CreateCard\<close> and \<open>Search\<close> assemble
  before they call \<open>Post\<close> or \<open>Get\<close>.
\<close>

definition CreateBoard_params :: "string \<Rightarrow> string \<Rightarrow> string \<Rightarrow> Values \<Rightarrow> Values" where
  "CreateBoard_params name desc idOrganization prefs =
     (let params = [];
          params = Values_Set ''name'' name params;
          params = (if desc \<noteq> [] then Values_Set ''desc'' desc params else params);
          params = (if idOrganization \<noteq> []
                    then Values_Set ''idOrganization'' idOrganization params else params)
      in range_set prefs params)"

definition CreateCard_params :: "string \<Rightarrow> string \<Rightarrow> string \<Rightarrow> Values \<Rightarrow> Values" where
  "CreateCard_params idList name desc params =
     (let p = [];
          p = Values_Set ''idList'' idList p;
          p = Values_Set ''name'' name p;
          p = (if desc \<noteq> [] then Values_Set ''desc'' desc p else p)
      in range_set params p)"

definition Search_params :: "string \<Rightarrow> string list \<Rightarrow> int \<Rightarrow> Values" where
  "Search_params query modelTypes limit =
     (let params = [];
          params = Values_Set ''query'' query params;
          params = (if 0 < length modelTypes
                    then fold (Values_Add ''modelTypes'') modelTypes params
                    else Values_Set ''modelTypes'' ''all'' params);
          params = (if 0 < limit
                    then Values_Set ''members_limit'' (fmt_d limit)
                           (Values_Set ''boards_limit'' (fmt_d limit)
                              (Values_Set ''cards_limit'' (fmt_d limit) params))
                    else params);
          params = Values_Set ''card_fields''
                     ''id,name,idBoard,idList,shortUrl,labels,due,dueComplete'' params;
          params = Values_Set ''board_fields'' ''id,name,shortUrl,closed'' params
      in params)"

text \<open>Notions used to state the properties of parameter maps.\<close>

definition keys :: "Values \<Rightarrow> string set" where
  "keys v = fst ` set v"

fun pairs_of :: "string list \<Rightarrow> (string \<times> string) list" where
  "pairs_of (k # x # rest) = (k, x) # pairs_of rest"
| "pairs_of rest = []"

definition one_valued :: "Values \<Rightarrow> bool" where
  "one_valued v \<longleftrightarrow> (\<forall>k vs. map_of v k = Some vs \<longrightarrow> (\<exists>x. vs = [x]))"

definition nonempty_single :: "Values \<Rightarrow> bool" where
  "nonempty_single v \<longleftrightarrow> (\<forall>k vs. map_of v k = Some vs \<longrightarrow> (\<exists>x. vs = [x] \<and> x \<noteq> []))"

text \<open>
  An instance of the parser parameter on which \<open>buildURL\<close> is evaluated: it takes the
  whole text as the part before the query.
\<close>

definition example_Parse :: "string \<Rightarrow> URL option" where
  "example_Parse s = Some \<lparr>Head = s, RawQuery = [], ForceQuery = False, Tail = []\<rparr>"

section \<open>Theorems: parameters and addresses\<close>

lemma map_of_Values_Set: "map_of (Values_Set k x v) = (map_of v)(k \<mapsto> [x])"
  by (simp add: Values_Set_def update_conv')

lemma keys_Values_Set: "keys (Values_Set k x v) = insert k (keys v)"
  using dom_update [of k "[x]" v] by (simp add: Values_Set_def keys_def dom_map_of_conv_image_fst)

lemma distinct_Values_Set: "distinct (map fst v) \<Longrightarrow> distinct (map fst (Values_Set k x v))"
  by (simp add: Values_Set_def distinct_update)

lemma map_of_set_each:
  "map_of (set_each k vs q) = (if vs = [] then map_of q else (map_of q)(k \<mapsto> [last vs]))"
proof (induction vs arbitrary: q)
  case Nil
  then show ?case by (simp add: set_each_def)
next
  case (Cons x xs)
  have "set_each k (x # xs) q = set_each k xs (Values_Set k x q)"
    by (simp add: set_each_def)
  then show ?case using Cons.IH [of "Values_Set k x q"]
    by (auto simp: map_of_Values_Set)
qed

lemma distinct_set_each: "distinct (map fst q) \<Longrightarrow> distinct (map fst (set_each k vs q))"
  unfolding set_each_def by (induction vs arbitrary: q) (simp_all add: distinct_Values_Set)

lemma range_set_Cons: "range_set ((k, vs) # params) q = range_set params (set_each k vs q)"
  by (simp add: range_set_def)

lemma range_set_Nil: "range_set [] q = q"
  by (simp add: range_set_def)

lemma distinct_range_set: "distinct (map fst q) \<Longrightarrow> distinct (map fst (range_set params q))"
proof (induction params arbitrary: q)
  case Nil
  then show ?case by (simp add: range_set_Nil)
next
  case (Cons p params)
  obtain k vs where p: "p = (k, vs)" by (cases p)
  show ?case using Cons by (simp add: p range_set_Cons distinct_set_each)
qed

lemma map_of_range_set:
  "distinct (map fst params) \<Longrightarrow>
   map_of (range_set params q) k =
     (case map_of params k of
        None \<Rightarrow> map_of q k
      | Some vs \<Rightarrow> if vs = [] then map_of q k else Some [last vs])"
proof (induction params arbitrary: q)
  case Nil
  then show ?case by (simp add: range_set_Nil)
next
  case (Cons p params)
  obtain k' vs' where p: "p = (k', vs')" by (cases p)
  have d: "distinct (map fst params)" and nk: "k' \<notin> fst ` set params"
    using Cons.prems by (simp_all add: p)
  have ih: "map_of (range_set params (set_each k' vs' q)) k =
      (case map_of params k of
         None \<Rightarrow> map_of (set_each k' vs' q) k
       | Some vs \<Rightarrow> if vs = [] then map_of (set_each k' vs' q) k else Some [last vs])"
    by (rule Cons.IH [OF d])
  show ?case
  proof (cases "k = k'")
    case True
    then have "map_of params k = None" using nk by (simp add: map_of_eq_None_iff)
    then show ?thesis using ih True by (simp add: p range_set_Cons map_of_set_each)
  next
    case False
    then have "map_of (set_each k' vs' q) k = map_of q k" by (simp add: map_of_set_each)
    then show ?thesis using ih False
      by (simp add: p range_set_Cons split: option.splits)
  qed
qed

lemma range_set_later_wins:
  "distinct (map fst params) \<Longrightarrow> map_of params k = Some vs \<Longrightarrow> vs \<noteq> [] \<Longrightarrow>
   map_of (range_set params q) k = Some [last vs]"
  by (simp add: map_of_range_set)

lemma range_set_absent:
  "distinct (map fst params) \<Longrightarrow> map_of params k = None \<Longrightarrow>
   map_of (range_set params q) k = map_of q k"
  by (simp add: map_of_range_set)

lemma one_valued_Values_Set: "one_valued v \<Longrightarrow> one_valued (Values_Set k x v)"
  by (simp add: one_valued_def map_of_Values_Set)

lemma one_valued_set_each: "one_valued q \<Longrightarrow> one_valued (set_each k vs q)"
  by (simp add: one_valued_def map_of_set_each)

lemma one_valued_range_set: "one_valued q \<Longrightarrow> one_valued (range_set params q)"
proof (induction params arbitrary: q)
  case Nil
  then show ?case by (simp add: range_set_Nil)
next
  case (Cons p params)
  obtain k vs where p: "p = (k, vs)" by (cases p)
  show ?case using Cons by (simp add: p range_set_Cons one_valued_set_each)
qed

lemma map_of_authParams:
  "map_of (authParams c) = [''key'' \<mapsto> [apiKey c], ''token'' \<mapsto> [apiToken c]]"
  by (simp add: authParams_def map_of_Values_Set)

lemma one_valued_authParams: "one_valued (authParams c)"
  by (simp add: one_valued_def map_of_authParams)

lemma distinct_authParams: "distinct (map fst (authParams c))"
  by (simp add: authParams_def distinct_Values_Set)

lemma keys_map_of: "k \<in> keys v \<longleftrightarrow> (\<exists>vs. map_of v k = Some vs)"
  using map_of_eq_None_iff [of v k] by (auto simp: keys_def)

lemma set_query_pairs:
  "(k, x) \<in> set (query_pairs v) \<longleftrightarrow> k \<in> keys v \<and> x \<in> set (Values_lookup v k)"
  by (auto simp: query_pairs_def keys_def)

lemma map_fst_singletons:
  "\<forall>k \<in> set ks. \<exists>x. f k = [x] \<Longrightarrow> map fst (concat (map (\<lambda>k. map (Pair k) (f k)) ks)) = ks"
  by (induction ks) auto

lemma map_fst_query_pairs:
  assumes "one_valued v"
  shows "map fst (query_pairs v) = sort (map fst v)"
proof -
  have "\<forall>k \<in> set (sort (map fst v)). \<exists>x. Values_lookup v k = [x]"
  proof
    fix k assume "k \<in> set (sort (map fst v))"
    then have "k \<in> keys v" by (simp add: keys_def)
    then obtain vs where "map_of v k = Some vs" by (auto simp: keys_map_of)
    then show "\<exists>x. Values_lookup v k = [x]"
      using assms by (auto simp: one_valued_def Values_lookup_def)
  qed
  then show ?thesis unfolding query_pairs_def by (rule map_fst_singletons)
qed

lemma distinct_query_pairs:
  "one_valued v \<Longrightarrow> distinct (map fst v) \<Longrightarrow> distinct (map fst (query_pairs v))"
  by (simp add: map_fst_query_pairs)

lemma query_pairs_value:
  "map_of v k = Some [y] \<Longrightarrow> (k, x) \<in> set (query_pairs v) \<longleftrightarrow> x = y"
  by (auto simp: set_query_pairs keys_map_of Values_lookup_def)

lemma buildURL_parsed:
  "url_Parse (apiBase @ path) = Some u \<Longrightarrow>
   buildURL url_Parse c path params =
     Inr (URL_String (u\<lparr>RawQuery := Encode (range_set params (authParams c))\<rparr>))"
  by (simp add: buildURL_def)

lemma buildURL_unparsed:
  "url_Parse (apiBase @ path) = None \<Longrightarrow>
   buildURL url_Parse c path params = Inl NilPointerDereference"
  by (simp add: buildURL_def)

lemma keys_set_each: "keys (set_each k vs q) = (if vs = [] then keys q else insert k (keys q))"
proof -
  have "dom (map_of (set_each k vs q)) = (if vs = [] then dom (map_of q) else insert k (dom (map_of q)))"
    by (simp add: map_of_set_each)
  then show ?thesis by (simp add: keys_def dom_map_of_conv_image_fst)
qed

lemma keys_range_set: "keys (range_set params q) \<subseteq> keys q \<union> keys params"
proof (induction params arbitrary: q)
  case Nil
  then show ?case by (simp add: range_set_Nil)
next
  case (Cons p params)
  obtain k vs where p: "p = (k, vs)" by (cases p)
  have "keys (range_set params (set_each k vs q)) \<subseteq> keys (set_each k vs q) \<union> keys params"
    by (rule Cons.IH)
  moreover have "keys (set_each k vs q) \<subseteq> insert k (keys q)"
    by (simp add: keys_set_each subset_insertI)
  moreover have "keys (p # params) = insert k (keys params)"
    by (simp add: p keys_def)
  ultimately show ?case by (auto simp: p range_set_Cons)
qed

lemma buildParams_loop_nonempty_single:
  "nonempty_single p \<Longrightarrow> nonempty_single (buildParams_loop pairs p)"
proof (induction pairs p rule: buildParams_loop.induct)
  case (1 k x rest p)
  have "nonempty_single (if x \<noteq> [] then Values_Set k x p else p)"
    using "1.prems" by (simp add: nonempty_single_def map_of_Values_Set)
  then show ?case using "1.IH" by simp
qed simp_all

lemma keys_buildParams_loop:
  "keys (buildParams_loop pairs p) =
     keys p \<union> {k. \<exists>x. (k, x) \<in> set (pairs_of pairs) \<and> x \<noteq> []}"
proof (induction pairs p rule: buildParams_loop.induct)
  case (1 k x rest p)
  then show ?case by (auto simp: keys_Values_Set)
qed simp_all

lemma keys_buildParams:
  "k \<in> keys (buildParams pairs) \<longleftrightarrow> (\<exists>x. (k, x) \<in> set (pairs_of pairs) \<and> x \<noteq> [])"
proof -
  have "keys ([] :: Values) = {}" by (simp add: keys_def)
  then show ?thesis by (simp add: buildParams_def keys_buildParams_loop)
qed

lemma nonempty_single_buildParams: "nonempty_single (buildParams pairs)"
  unfolding buildParams_def
  by (rule buildParams_loop_nonempty_single) (simp add: nonempty_single_def)

lemma map_of_fold_Values_Add:
  "map_of (fold (Values_Add k) ts v) =
     (if ts = [] then map_of v else (map_of v)(k \<mapsto> Values_lookup v k @ ts))"
proof (induction ts arbitrary: v)
  case Nil
  then show ?case by simp
next
  case (Cons t ts)
  have a: "map_of (Values_Add k t v) = (map_of v)(k \<mapsto> Values_lookup v k @ [t])"
    by (simp add: Values_Add_def update_conv')
  then have "Values_lookup (Values_Add k t v) k = Values_lookup v k @ [t]"
    by (simp add: Values_lookup_def)
  then show ?case using Cons.IH [of "Values_Add k t v"] a by auto
qed

lemma distinct_fold_Values_Add:
  "distinct (map fst v) \<Longrightarrow> distinct (map fst (fold (Values_Add k) ts v))"
  by (induction ts arbitrary: v) (simp_all add: Values_Add_def distinct_update)

lemma Search_params_modelTypes:
  "ts \<noteq> [] \<Longrightarrow> map_of (Search_params query ts limit) ''modelTypes'' = Some ts"
  by (simp add: Search_params_def Let_def map_of_Values_Set map_of_fold_Values_Add
      Values_lookup_def)

lemma distinct_Search_params: "distinct (map fst (Search_params query ts limit))"
  by (simp add: Search_params_def Let_def distinct_Values_Set distinct_fold_Values_Add)

text \<open>
  Claim C3. Later wins. When a well-formed parameter map (one entry for each key) holds
  the values \<open>vs\<close>, at least one, under the key \<open>k\<close>, merging it over any earlier
  map \<open>q\<close> leaves exactly the last of them under \<open>k\<close>. So the query of the address
  that \<open>buildURL\<close> returns carries for \<open>k\<close> the caller's value and no other, also
  when \<open>k\<close> is \<open>key\<close> or \<open>token\<close>, and in \<open>CreateCard\<close> the entry of the
  passthrough bag replaces the fixed field of the same name.
\<close>

theorem merge_later_wins:
  assumes "distinct (map fst params)" and "map_of params k = Some vs" and "vs \<noteq> []"
    and "url_Parse (apiBase @ path) = Some u"
  shows "map_of (range_set params q) k = Some [last vs] \<and>
         buildURL url_Parse c path params =
           Inr (URL_String (u\<lparr>RawQuery := Encode (range_set params (authParams c))\<rparr>)) \<and>
         ((k, x) \<in> set (query_pairs (range_set params (authParams c))) \<longleftrightarrow> x = last vs) \<and>
         map_of (CreateCard_params idList name desc params) k = Some [last vs]"
proof -
  have m: "\<And>q. map_of (range_set params q) k = Some [last vs]"
    using assms(1,2,3) by (rule range_set_later_wins)
  have "map_of (CreateCard_params idList name desc params) k = Some [last vs]"
    unfolding CreateCard_params_def Let_def by (rule m)
  then show ?thesis
    using m assms(4) by (simp add: buildURL_parsed query_pairs_value)
qed

theorem merge_later_wins_witness:
  "distinct (map fst [(''key'', [''K2'']), (''name'', [''x'', ''y''])]) \<and>
   map_of [(''key'', [''K2'']), (''name'', [''x'', ''y''])] ''key'' = Some [''K2''] \<and>
   [''K2''] \<noteq> [] \<and>
   example_Parse (apiBase @ ''/cards'') =
     Some \<lparr>Head = ''https://api.trello.com/1/cards'', RawQuery = [], ForceQuery = False,
       Tail = []\<rparr> \<and>
   map_of (range_set [(''key'', [''K2'']), (''name'', [''x'', ''y''])] [(''key'', [''K1''])]) ''key''
     = Some [''K2''] \<and>
   buildURL example_Parse \<lparr>apiKey = ''K1'', apiToken = ''T1''\<rparr> ''/cards''
       [(''key'', [''K2'']), (''name'', [''x'', ''y''])] =
     Inr ''https://api.trello.com/1/cards?key=K2&name=y&token=T1'' \<and>
   map_of (CreateCard_params ''L'' ''n'' ''d'' [(''key'', [''K2'']), (''name'', [''x'', ''y''])])
     ''key'' = Some [''K2'']"
  using merge_later_wins [of "[(''key'', [''K2'']), (''name'', [''x'', ''y''])]" "''key''"
      "[''K2'']" example_Parse "''/cards''"
      "\<lparr>Head = ''https://api.trello.com/1/cards'', RawQuery = [], ForceQuery = False, Tail = []\<rparr>"
      "[(''key'', [''K1''])]" "\<lparr>apiKey = ''K1'', apiToken = ''T1''\<rparr>" "''K2''" "''L''" "''n''" "''d''"]
  by (simp add: example_Parse_def apiBase_def authParams_def range_set_def set_each_def
      Values_Set_def Encode_def query_pairs_def Values_lookup_def URL_String_def
      shouldEscape_def is_alnum_def upperhex_def)

text \<open>
  Claim C10. The query that \<open>buildURL\<close> encodes holds every key once: no key occurs
  in two of the written pairs. Of several values that the caller supplies under one key
  only the last of the slice is written. \<open>Search\<close> adds every model type under
  \<open>modelTypes\<close>, so only the last model type reaches the address.
\<close>

theorem buildURL_one_value_per_key:
  assumes "url_Parse (apiBase @ path) = Some u"
    and "distinct (map fst params)" and "map_of params k = Some vs" and "vs \<noteq> []"
    and "ts \<noteq> []"
  shows "buildURL url_Parse c path params =
           Inr (URL_String (u\<lparr>RawQuery := Encode (range_set params (authParams c))\<rparr>)) \<and>
         distinct (map fst (query_pairs (range_set params (authParams c)))) \<and>
         ((k, x) \<in> set (query_pairs (range_set params (authParams c))) \<longleftrightarrow> x = last vs) \<and>
         map_of (Search_params query ts limit) ''modelTypes'' = Some ts \<and>
         ((''modelTypes'', x) \<in>
            set (query_pairs (range_set (Search_params query ts limit) (authParams c)))
          \<longleftrightarrow> x = last ts)"
proof -
  let ?q = "range_set params (authParams c)"
  have "one_valued ?q"
    by (intro one_valued_range_set one_valued_authParams)
  moreover have "distinct (map fst ?q)"
    by (intro distinct_range_set distinct_authParams)
  ultimately have d: "distinct (map fst (query_pairs ?q))"
    by (rule distinct_query_pairs)
  have "map_of ?q k = Some [last vs]"
    using assms(2,3,4) by (rule range_set_later_wins)
  then have v: "(k, x) \<in> set (query_pairs ?q) \<longleftrightarrow> x = last vs"
    by (rule query_pairs_value)
  have s: "map_of (Search_params query ts limit) ''modelTypes'' = Some ts"
    using assms(5) by (rule Search_params_modelTypes)
  have "map_of (range_set (Search_params query ts limit) (authParams c)) ''modelTypes''
      = Some [last ts]"
    using distinct_Search_params s assms(5) by (rule range_set_later_wins)
  then have "(''modelTypes'', x) \<in>
      set (query_pairs (range_set (Search_params query ts limit) (authParams c)))
       \<longleftrightarrow> x = last ts"
    by (rule query_pairs_value)
  then show ?thesis
    using d v s assms(1) by (simp add: buildURL_parsed)
qed

theorem buildURL_one_value_per_key_witness:
  "example_Parse (apiBase @ ''/search'') =
     Some \<lparr>Head = ''https://api.trello.com/1/search'', RawQuery = [], ForceQuery = False,
       Tail = []\<rparr> \<and>
   distinct (map fst (Search_params ''bug'' [''cards'', ''boards''] 0)) \<and>
   map_of (Search_params ''bug'' [''cards'', ''boards''] 0) ''modelTypes''
     = Some [''cards'', ''boards''] \<and>
   [''cards'', ''boards''] \<noteq> [] \<and>
   buildURL example_Parse \<lparr>apiKey = ''K'', apiToken = ''T''\<rparr> ''/search''
       (Search_params ''bug'' [''cards'', ''boards''] 0) =
     Inr (''https://api.trello.com/1/search?board_fields=id%2Cname%2CshortUrl%2Cclosed'' @
          ''&card_fields=id%2Cname%2CidBoard%2CidList%2CshortUrl%2Clabels%2Cdue%2CdueComplete'' @
          ''&key=K&modelTypes=boards&query=bug&token=T'') \<and>
   (''modelTypes'', ''boards'') \<in>
     set (query_pairs (range_set (Search_params ''bug'' [''cards'', ''boards''] 0)
       (authParams \<lparr>apiKey = ''K'', apiToken = ''T''\<rparr>))) \<and>
   (''modelTypes'', ''cards'') \<notin>
     set (query_pairs (range_set (Search_params ''bug'' [''cards'', ''boards''] 0)
       (authParams \<lparr>apiKey = ''K'', apiToken = ''T''\<rparr>)))"
proof -
  let ?c = "\<lparr>apiKey = ''K'', apiToken = ''T''\<rparr>"
  let ?u = "\<lparr>Head = ''https://api.trello.com/1/search'', RawQuery = [], ForceQuery = False,
       Tail = []\<rparr>"
  let ?ts = "[''cards'', ''boards'']"
  let ?p = "Search_params ''bug'' ?ts 0"
  have p: "?p = [(''query'', [''bug'']), (''modelTypes'', [''cards'', ''boards'']),
      (''card_fields'', [''id,name,idBoard,idList,shortUrl,labels,due,dueComplete'']),
      (''board_fields'', [''id,name,shortUrl,closed''])]"
    by (simp add: Search_params_def Values_Set_def Values_Add_def Values_lookup_def)
  have h1: "example_Parse (apiBase @ ''/search'') = Some ?u"
    by (simp add: example_Parse_def apiBase_def)
  have h2: "distinct (map fst ?p)" by (simp add: p)
  have h3: "map_of ?p ''modelTypes'' = Some ?ts" by (simp add: p)
  have h4: "?ts \<noteq> []" by simp
  have e: "Encode (range_set ?p (authParams ?c)) =
      ''board_fields=id%2Cname%2CshortUrl%2Cclosed'' @
      ''&card_fields=id%2Cname%2CidBoard%2CidList%2CshortUrl%2Clabels%2Cdue%2CdueComplete'' @
      ''&key=K&modelTypes=boards&query=bug&token=T''"
    by (simp add: p authParams_def range_set_def set_each_def
        Values_Set_def Encode_def query_pairs_def Values_lookup_def
        shouldEscape_def is_alnum_def upperhex_def)
  have t: "buildURL example_Parse ?c ''/search'' ?p =
           Inr (URL_String (?u\<lparr>RawQuery := Encode (range_set ?p (authParams ?c))\<rparr>)) \<and>
         ((''modelTypes'', x) \<in> set (query_pairs (range_set ?p (authParams ?c)))
            \<longleftrightarrow> x = last ?ts)" for x
    using buildURL_one_value_per_key [where url_Parse = example_Parse and path = "''/search''"
        and u = ?u and params = ?p and k = "''modelTypes''" and vs = ?ts and ts = ?ts
        and c = ?c and query = "''bug''" and limit = 0 and x = x, OF h1 h2 h3 h4 h4]
    by blast
  have "(''modelTypes'', ''boards'') \<in> set (query_pairs (range_set ?p (authParams ?c)))"
    using t [of "''boards''"] by simp
  moreover have "(''modelTypes'', ''cards'') \<notin> set (query_pairs (range_set ?p (authParams ?c)))"
    using t [of "''cards''"] by simp
  moreover have "buildURL example_Parse ?c ''/search'' ?p =
      Inr (URL_String (?u\<lparr>RawQuery := Encode (range_set ?p (authParams ?c))\<rparr>))"
    using t [of "''x''"] by blast
  ultimately show ?thesis
    using h1 h2 h3 by (simp add: e URL_String_def)
qed

lemma keys_range_set_eq:
  "keys (range_set params q) = keys q \<union> {k. \<exists>vs. (k, vs) \<in> set params \<and> vs \<noteq> []}"
proof (induction params arbitrary: q)
  case Nil
  then show ?case by (simp add: range_set_Nil)
next
  case (Cons p params)
  obtain k vs where p: "p = (k, vs)" by (cases p)
  show ?case
    unfolding p range_set_Cons Cons.IH [of "set_each k vs q"] keys_set_each
    by auto
qed

lemma keys_CreateBoard_params:
  "keys (CreateBoard_params name desc idOrganization prefs) =
     {''name''} \<union> (if desc \<noteq> [] then {''desc''} else {}) \<union>
     (if idOrganization \<noteq> [] then {''idOrganization''} else {}) \<union>
     {k. \<exists>vs. (k, vs) \<in> set prefs \<and> vs \<noteq> []}"
proof -
  have "keys ([] :: Values) = {}" by (simp add: keys_def)
  then show ?thesis
    by (auto simp: CreateBoard_params_def Let_def keys_range_set_eq keys_Values_Set)
qed

text \<open>
  Claim C4, as the code has it. \<open>buildParams\<close> holds a key exactly when some pair
  supplies a non-empty value under it, and every value it holds is a single non-empty
  string; so a key whose supplied values are all empty is absent. The parameters of
  \<open>CreateBoard\<close> hold \<open>desc\<close> (\<open>idOrganization\<close>) exactly when the argument is
  non-empty or the bag \<open>prefs\<close> has an entry with a value under that key: the entries of
  the bag are copied without a test for emptiness.
\<close>

theorem empty_values_omitted:
  "(k \<in> keys (buildParams pairs) \<longleftrightarrow> (\<exists>x. (k, x) \<in> set (pairs_of pairs) \<and> x \<noteq> [])) \<and>
   nonempty_single (buildParams pairs) \<and>
   (''desc'' \<in> keys (CreateBoard_params name desc idOrganization prefs) \<longleftrightarrow>
      desc \<noteq> [] \<or> (\<exists>vs. (''desc'', vs) \<in> set prefs \<and> vs \<noteq> [])) \<and>
   (''idOrganization'' \<in> keys (CreateBoard_params name desc idOrganization prefs) \<longleftrightarrow>
      idOrganization \<noteq> [] \<or> (\<exists>vs. (''idOrganization'', vs) \<in> set prefs \<and> vs \<noteq> []))"
  by (simp add: keys_buildParams nonempty_single_buildParams keys_CreateBoard_params)

theorem empty_values_omitted_witness:
  "pairs_of [''name'', ''Plan'', ''desc'', []] = [(''name'', ''Plan''), (''desc'', [])] \<and>
   ''desc'' \<notin> keys (buildParams [''name'', ''Plan'', ''desc'', []]) \<and>
   nonempty_single (buildParams [''name'', ''Plan'', ''desc'', []]) \<and>
   ''desc'' \<notin> keys (CreateBoard_params ''Plan'' [] ''org1'' []) \<and>
   ''idOrganization'' \<in> keys (CreateBoard_params ''Plan'' [] ''org1'' [])"
  using empty_values_omitted [of "''desc''" "[''name'', ''Plan'', ''desc'', []]" "''Plan''"
      "[]" "''org1''" "[]"]
  by simp

text \<open>
  The claim as stated fails: a key supplied once with a value and once empty is present
  in the result of \<open>buildParams\<close>, and \<open>CreateBoard\<close> with an empty description
  sends \<open>desc\<close> with the empty value when the bag holds it so.
\<close>

theorem empty_value_present_counterexample:
  "(''due'', []) \<in> set (pairs_of [''due'', ''2024-12-31'', ''due'', []]) \<and>
   ''due'' \<in> keys (buildParams [''due'', ''2024-12-31'', ''due'', []]) \<and>
   map_of (CreateBoard_params ''Plan'' [] [] [(''desc'', [[]])]) ''desc'' = Some [[]]"
  by (simp add: buildParams_def keys_def CreateBoard_params_def range_set_def set_each_def
      Values_Set_def)

section \<open>JSON texts (encoding/json)\<close>

text \<open>
  The bodies the service answers are JSON texts. \<open>json.Unmarshal\<close> first checks the
  whole text against the grammar and then decodes it into the destination. The grammar is
  modelled by a tokenizer and a stack machine over the tokens; string literals are
  unquoted as \<open>encoding/json\<close> does (escapes, surrogate pairs, invalid UTF-8 replaced by
  U+FFFD), number literals are kept as text.
\<close>

datatype json =
    JNull
  | JBool bool
  | JNumber string
  | JString string
  | JArray "json list"
  | JObject "(string \<times> json) list"

datatype token =
    LBrace | RBrace | LBracket | RBracket | Colon | Comma
  | TString string | TNumber string | TTrue | TFalse | TNull

text \<open>Character classes and the escapes of a string literal.\<close>

definition is_digit :: "char \<Rightarrow> bool" where
  "is_digit c \<longleftrightarrow> 0x30 \<le> (of_char c :: nat) \<and> (of_char c :: nat) \<le> 0x39"

definition is_space :: "char \<Rightarrow> bool" where
  "is_space c \<longleftrightarrow> c = CHR '' '' \<or> c = CHR 0x09 \<or> c = CHR 0x0D \<or> c = CHR 0x0A"

definition hex_value :: "char \<Rightarrow> nat option" where
  "hex_value c =
     (let n = (of_char c :: nat) in
      if 0x30 \<le> n \<and> n \<le> 0x39 then Some (n - 0x30)
      else if 0x61 \<le> n \<and> n \<le> 0x66 then Some (n - 0x61 + 10)
      else if 0x41 \<le> n \<and> n \<le> 0x46 then Some (n - 0x41 + 10)
      else None)"

definition getu4 :: "string \<Rightarrow> nat option" where
  "getu4 s =
     (case s of
        b # u # h1 # h2 # h3 # h4 # rest \<Rightarrow>
          if b = CHR 0x5C \<and> u = CHR ''u'' then
            (case (hex_value h1, hex_value h2, hex_value h3, hex_value h4) of
               (Some a, Some b, Some c, Some d) \<Rightarrow> Some (a * 4096 + b * 256 + c * 16 + d)
             | _ \<Rightarrow> None)
          else None
      | _ \<Rightarrow> None)"

definition is_surrogate :: "nat \<Rightarrow> bool" where
  "is_surrogate r \<longleftrightarrow> 0xD800 \<le> r \<and> r < 0xE000"

definition utf16_DecodeRune :: "nat \<Rightarrow> nat \<Rightarrow> nat" where
  "utf16_DecodeRune r1 r2 =
     (if 0xD800 \<le> r1 \<and> r1 < 0xDC00 \<and> 0xDC00 \<le> r2 \<and> r2 < 0xE000
      then (r1 - 0xD800) * 1024 + (r2 - 0xDC00) + 0x10000
      else RuneError)"

definition simple_escape :: "char \<Rightarrow> char option" where
  "simple_escape c =
     (if c = CHR 0x22 \<or> c = CHR 0x5C \<or> c = CHR ''/'' then Some c
      else if c = CHR ''b'' then Some (CHR 0x08)
      else if c = CHR ''f'' then Some (CHR 0x0C)
      else if c = CHR ''n'' then Some (CHR 0x0A)
      else if c = CHR ''r'' then Some (CHR 0x0D)
      else if c = CHR ''t'' then Some (CHR 0x09)
      else None)"

text \<open>
  One step of unquoting: the bytes produced and the number of bytes consumed. A control
  character and an unknown escape are syntax errors.
\<close>

definition unquote_step :: "string \<Rightarrow> (string \<times> nat) option" where
  "unquote_step s =
     (case s of
        [] \<Rightarrow> None
      | c # cs \<Rightarrow>
          if c = CHR 0x5C then
            (case cs of
               [] \<Rightarrow> None
             | e # es \<Rightarrow>
                 if e = CHR ''u'' then
                   (case getu4 s of
                      None \<Rightarrow> None
                    | Some rr \<Rightarrow>
                        if is_surrogate rr then
                          (case getu4 (drop 6 s) of
                             Some rr1 \<Rightarrow>
                               if utf16_DecodeRune rr rr1 \<noteq> RuneError
                               then Some (string_of_runes [utf16_DecodeRune rr rr1], 12)
                               else Some (string_of_runes [RuneError], 6)
                           | None \<Rightarrow> Some (string_of_runes [RuneError], 6))
                        else Some (string_of_runes [rr], 6))
                 else
                   (case simple_escape e of
                      None \<Rightarrow> None
                    | Some x \<Rightarrow> Some ([x], 2)))
          else if (of_char c :: nat) < 0x20 then None
          else if (of_char c :: nat) < 0x80 then Some ([c], 1)
          else
            (let (rr, size) = DecodeRune (map of_char s) in Some (string_of_runes [rr], size)))"

lemma unquote_step_pos:
  assumes "unquote_step s = Some (out, k)"
  shows "0 < k"
proof (cases s)
  case Nil
  then show ?thesis using assms by (simp add: unquote_step_def)
next
  case (Cons c cs)
  have "0 < snd (DecodeRune (map of_char s))"
    using Cons by (intro DecodeRune_size_pos) simp
  then show ?thesis
    using assms Cons
    by (auto simp: unquote_step_def Let_def split: if_splits list.splits option.splits prod.splits)
qed

text \<open>The text of a literal up to its closing quote, and the rest of the input.\<close>

function unquote :: "string \<Rightarrow> (string \<times> string) option" where
  "unquote s =
     (case s of
        [] \<Rightarrow> None
      | c # cs \<Rightarrow>
          if c = CHR 0x22 then Some ([], cs)
          else
            (case unquote_step s of
               None \<Rightarrow> None
             | Some (out, k) \<Rightarrow>
                 map_option (\<lambda>(t, rest). (out @ t, rest)) (unquote (drop k s))))"
  by pat_completeness auto
termination
proof (relation "measure length")
  show "wf (measure length)" by simp
next
  fix s c cs x2 x y
  assume "s = c # cs" "unquote_step s = Some x2" "(x, y) = x2"
  then have "0 < y" using unquote_step_pos [of s x y] by simp
  then show "(drop y s, s) \<in> measure length" using \<open>s = c # cs\<close> by simp
qed

declare unquote.simps [simp del]

lemma unquote_shorter: "unquote s = Some (t, rest) \<Longrightarrow> length rest < length s"
proof (induction s arbitrary: t rest rule: unquote.induct)
  case (1 s)
  show ?case
  proof (cases s)
    case Nil
    then show ?thesis using "1.prems" by (simp add: unquote.simps)
  next
    case (Cons c cs)
    show ?thesis
    proof (cases "c = CHR 0x22")
      case True
      then show ?thesis using "1.prems" Cons by (simp add: unquote.simps)
    next
      case False
      then obtain out k t' where st: "unquote_step s = Some (out, k)"
        and r: "unquote (drop k s) = Some (t', rest)"
        using "1.prems" Cons
        by (auto simp: unquote.simps [of "c # cs"] split: option.splits)
      have "length rest < length (drop k s)"
        using "1.IH" [OF Cons False st refl r] .
      then show ?thesis by simp
    qed
  qed
qed

text \<open>Number literals: sign, integer part, fraction, exponent.\<close>

definition scan_sign :: "string \<Rightarrow> string \<times> string" where
  "scan_sign s =
     (case s of
        [] \<Rightarrow> ([], s)
      | c # cs \<Rightarrow> if c = CHR ''-'' then ([c], cs) else ([], s))"

definition scan_int :: "string \<Rightarrow> (string \<times> string) option" where
  "scan_int s =
     (case s of
        [] \<Rightarrow> None
      | c # cs \<Rightarrow>
          if c = CHR ''0'' then Some ([c], cs)
          else if is_digit c then Some (takeWhile is_digit s, dropWhile is_digit s)
          else None)"

definition scan_frac :: "string \<Rightarrow> (string \<times> string) option" where
  "scan_frac s =
     (case s of
        [] \<Rightarrow> Some ([], s)
      | c # cs \<Rightarrow>
          if c = CHR ''.'' then
            (if takeWhile is_digit cs = [] then None
             else Some (c # takeWhile is_digit cs, dropWhile is_digit cs))
          else Some ([], s))"

definition scan_exp :: "string \<Rightarrow> (string \<times> string) option" where
  "scan_exp s =
     (case s of
        [] \<Rightarrow> Some ([], s)
      | c # cs \<Rightarrow>
          if c = CHR ''e'' \<or> c = CHR ''E'' then
            (let (sg, s1) = (case cs of
                               [] \<Rightarrow> ([], cs)
                             | d # ds \<Rightarrow>
                                 if d = CHR ''+'' \<or> d = CHR ''-'' then ([d], ds) else ([], cs))
             in if takeWhile is_digit s1 = [] then None
                else Some (c # sg @ takeWhile is_digit s1, dropWhile is_digit s1))
          else Some ([], s))"

definition scan_number :: "string \<Rightarrow> (string \<times> string) option" where
  "scan_number s =
     (let (sg, s1) = scan_sign s in
      case scan_int s1 of
        None \<Rightarrow> None
      | Some (ds, s2) \<Rightarrow>
          (case scan_frac s2 of
             None \<Rightarrow> None
           | Some (fs, s3) \<Rightarrow>
               (case scan_exp s3 of
                  None \<Rightarrow> None
                | Some (es, s4) \<Rightarrow> Some (sg @ ds @ fs @ es, s4))))"

lemma scan_sign_split: "scan_sign s = (lit, rest) \<Longrightarrow> s = lit @ rest"
  by (auto simp: scan_sign_def split: list.splits if_splits)

lemma scan_int_split: "scan_int s = Some (lit, rest) \<Longrightarrow> s = lit @ rest \<and> lit \<noteq> []"
  by (auto simp: scan_int_def split: list.splits if_splits)

lemma scan_frac_split: "scan_frac s = Some (lit, rest) \<Longrightarrow> s = lit @ rest"
  by (auto simp: scan_frac_def split: list.splits if_splits)

lemma scan_exp_split: "scan_exp s = Some (lit, rest) \<Longrightarrow> s = lit @ rest"
  by (auto simp: scan_exp_def Let_def split: list.splits if_splits prod.splits)

lemma scan_number_shorter:
  assumes "scan_number s = Some (lit, rest)"
  shows "length rest < length s"
proof -
  obtain sg s1 where a: "scan_sign s = (sg, s1)" by (cases "scan_sign s")
  obtain ds s2 where b: "scan_int s1 = Some (ds, s2)"
    using assms a by (auto simp: scan_number_def split: option.splits)
  obtain fs s3 where c: "scan_frac s2 = Some (fs, s3)"
    using assms a b by (auto simp: scan_number_def split: option.splits)
  obtain es s4 where d: "scan_exp s3 = Some (es, s4)"
    using assms a b c by (auto simp: scan_number_def split: option.splits)
  have r: "rest = s4" using assms a b c d by (simp add: scan_number_def)
  have "s = sg @ s1" using a by (rule scan_sign_split)
  moreover have "s1 = ds @ s2 \<and> ds \<noteq> []" using b by (rule scan_int_split)
  moreover have "s2 = fs @ s3" using c by (rule scan_frac_split)
  moreover have "s3 = es @ s4" using d by (rule scan_exp_split)
  ultimately have "s = sg @ ds @ fs @ es @ s4 \<and> ds \<noteq> []" by simp
  then have "length s = length sg + length ds + length fs + length es + length s4 \<and> 0 < length ds"
    by (metis length_append length_greater_0_conv add.assoc)
  then show ?thesis using r by simp
qed

text \<open>The tokens of a text; \<open>None\<close> when a character fits no token.\<close>

function tokenize :: "string \<Rightarrow> token list option" where
  "tokenize s =
     (case s of
        [] \<Rightarrow> Some []
      | c # cs \<Rightarrow>
          if is_space c then tokenize cs
          else if c = CHR ''{'' then map_option ((#) LBrace) (tokenize cs)
          else if c = CHR ''}'' then map_option ((#) RBrace) (tokenize cs)
          else if c = CHR ''['' then map_option ((#) LBracket) (tokenize cs)
          else if c = CHR '']'' then map_option ((#) RBracket) (tokenize cs)
          else if c = CHR '':'' then map_option ((#) Colon) (tokenize cs)
          else if c = CHR '','' then map_option ((#) Comma) (tokenize cs)
          else if c = CHR 0x22 then
            (case unquote cs of
               None \<Rightarrow> None
             | Some (t, rest) \<Rightarrow> map_option ((#) (TString t)) (tokenize rest))
          else if c = CHR ''-'' \<or> is_digit c then
            (case scan_number s of
               None \<Rightarrow> None
             | Some (lit, rest) \<Rightarrow> map_option ((#) (TNumber lit)) (tokenize rest))
          else if take 4 s = ''true'' then map_option ((#) TTrue) (tokenize (drop 4 s))
          else if take 5 s = ''false'' then map_option ((#) TFalse) (tokenize (drop 5 s))
          else if take 4 s = ''null'' then map_option ((#) TNull) (tokenize (drop 4 s))
          else None)"
  by pat_completeness auto
termination
proof (relation "measure length")
  show "wf (measure length)" by simp
next
  fix s c cs x2 x y
  assume "s = c # cs" "unquote cs = Some x2" "(x, y) = x2"
  then have "length y < length cs" using unquote_shorter [of cs x y] by simp
  then show "(y, s) \<in> measure length" using \<open>s = c # cs\<close> by simp
next
  fix s c cs x2 x y
  assume "s = c # cs" "scan_number s = Some x2" "(x, y) = x2"
  then have "length y < length s" using scan_number_shorter [of s x y] by simp
  then show "(y, s) \<in> measure length" by simp
qed auto

declare tokenize.simps [simp del]

text \<open>
  The grammar, as a machine over the tokens with a stack of the open arrays and objects.
  The scanner of \<open>encoding/json\<close> refuses a text nested deeper than 10000.
\<close>

datatype frame = FArray "json list" | FObject "(string \<times> json) list" "string option"

datatype expect =
  EValue | EValueOrClose | EKeyOrClose | EKey | EColon | ECommaOrClose | EDone json

definition maxNestingDepth :: nat where
  "maxNestingDepth = 10000"

fun push_value :: "json \<Rightarrow> frame list \<Rightarrow> (frame list \<times> expect) option" where
  "push_value v [] = Some ([], EDone v)"
| "push_value v (FArray es # st) = Some (FArray (v # es) # st, ECommaOrClose)"
| "push_value v (FObject ms (Some k) # st) = Some (FObject ((k, v) # ms) None # st, ECommaOrClose)"
| "push_value v (FObject ms None # st) = None"

fun close_frame :: "frame list \<Rightarrow> (frame list \<times> expect) option" where
  "close_frame (FArray es # st) = push_value (JArray (rev es)) st"
| "close_frame (FObject ms None # st) = push_value (JObject (rev ms)) st"
| "close_frame st = None"

fun begin_value :: "token \<Rightarrow> frame list \<Rightarrow> (frame list \<times> expect) option" where
  "begin_value LBracket st =
     (if length st < maxNestingDepth then Some (FArray [] # st, EValueOrClose) else None)"
| "begin_value LBrace st =
     (if length st < maxNestingDepth then Some (FObject [] None # st, EKeyOrClose) else None)"
| "begin_value (TString s) st = push_value (JString s) st"
| "begin_value (TNumber n) st = push_value (JNumber n) st"
| "begin_value TTrue st = push_value (JBool True) st"
| "begin_value TFalse st = push_value (JBool False) st"
| "begin_value TNull st = push_value JNull st"
| "begin_value t st = None"

fun object_key :: "token \<Rightarrow> frame list \<Rightarrow> (frame list \<times> expect) option" where
  "object_key (TString k) (FObject ms None # st) = Some (FObject ms (Some k) # st, EColon)"
| "object_key t st = None"

fun is_array_frame :: "frame list \<Rightarrow> bool" where
  "is_array_frame (FArray es # st) = True"
| "is_array_frame st = False"

fun is_object_frame :: "frame list \<Rightarrow> bool" where
  "is_object_frame (FObject ms k # st) = True"
| "is_object_frame st = False"

fun parse_step :: "frame list \<times> expect \<Rightarrow> token \<Rightarrow> (frame list \<times> expect) option" where
  "parse_step (st, EValue) t = begin_value t st"
| "parse_step (st, EValueOrClose) t = (if t = RBracket then close_frame st else begin_value t st)"
| "parse_step (st, EKeyOrClose) t = (if t = RBrace then close_frame st else object_key t st)"
| "parse_step (st, EKey) t = object_key t st"
| "parse_step (st, EColon) t = (if t = Colon then Some (st, EValue) else None)"
| "parse_step (st, ECommaOrClose) t =
     (if t = Comma \<and> is_array_frame st then Some (st, EValue)
      else if t = Comma \<and> is_object_frame st then Some (st, EKey)
      else if t = RBracket \<and> is_array_frame st then close_frame st
      else if t = RBrace \<and> is_object_frame st then close_frame st
      else None)"
| "parse_step (st, EDone v) t = None"

fun parse_tokens :: "frame list \<times> expect \<Rightarrow> token list \<Rightarrow> (frame list \<times> expect) option" where
  "parse_tokens state [] = Some state"
| "parse_tokens state (t # ts) =
     (case parse_step state t of None \<Rightarrow> None | Some state' \<Rightarrow> parse_tokens state' ts)"

definition json_parse :: "string \<Rightarrow> json option" where
  "json_parse s =
     (case tokenize s of
        None \<Rightarrow> None
      | Some ts \<Rightarrow>
          (case parse_tokens ([], EValue) ts of
             Some ([], EDone v) \<Rightarrow> Some v
           | _ \<Rightarrow> None))"

section \<open>Decoding into Go values (encoding/json)\<close>

text \<open>
  The destinations the program decodes into are structs of strings, booleans, numbers and
  further structs, and slices of such structs. A field is described by its Go name, its
  \<open>json\<close> tag and its type. The decoder stores what fits, skips a member no field is named
  after, leaves the destination as it is at \<open>null\<close>, and reports the first value whose
  kind does not fit its field. The acceptance of a number literal by \<open>strconv.ParseFloat\<close>
  is a parameter.
\<close>

datatype json_error = SyntaxError | UnmarshalTypeError string string

datatype gotype = TString | TBool | TFloat64 | TStruct string "(string \<times> string \<times> gotype) list"

datatype goval =
    VString string
  | VBool bool
  | VFloat64 "string option"
  | VStruct "(string \<times> goval) list"

fun type_name :: "gotype \<Rightarrow> string" where
  "type_name TString = ''string''"
| "type_name TBool = ''bool''"
| "type_name TFloat64 = ''float64''"
| "type_name (TStruct name flds) = name"

fun zero_value :: "gotype \<Rightarrow> goval" where
  "zero_value TString = VString []"
| "zero_value TBool = VBool False"
| "zero_value TFloat64 = VFloat64 None"
| "zero_value (TStruct name flds) =
     VStruct (map (\<lambda>f. (fst f, zero_value (snd (snd f)))) flds)"

fun json_kind :: "json \<Rightarrow> string" where
  "json_kind JNull = ''null''"
| "json_kind (JBool b) = ''bool''"
| "json_kind (JNumber n) = ''number''"
| "json_kind (JString s) = ''string''"
| "json_kind (JArray es) = ''array''"
| "json_kind (JObject ms) = ''object''"

text \<open>A member is matched with a field by its exact name first, then up to case.\<close>

definition fold_rune :: "nat \<Rightarrow> nat" where
  "fold_rune r =
     (if 0x61 \<le> r \<and> r \<le> 0x7A then r - 0x20
      else if r = 0x212A then 0x4B
      else if r = 0x17F then 0x53
      else r)"

definition foldName :: "string \<Rightarrow> string" where
  "foldName s = string_of_runes (map fold_rune (runes_of s))"

fun find_field :: "(string \<times> string \<times> gotype) list \<Rightarrow> string \<Rightarrow> (string \<times> gotype) option" where
  "find_field flds key =
     (case List.find (\<lambda>f. fst (snd f) = key) flds of
        Some f \<Rightarrow> Some (fst f, snd (snd f))
      | None \<Rightarrow>
          (case List.find (\<lambda>f. foldName (fst (snd f)) = foldName key) flds of
             Some f \<Rightarrow> Some (fst f, snd (snd f))
           | None \<Rightarrow> None))"

fun get_field :: "goval \<Rightarrow> string \<Rightarrow> goval option" where
  "get_field (VStruct fs) name = map_of fs name"
| "get_field v name = None"

fun set_field :: "goval \<Rightarrow> string \<Rightarrow> goval \<Rightarrow> goval" where
  "set_field (VStruct fs) name x = VStruct (AList.update name x fs)"
| "set_field v name x = v"

fun first_error :: "'e option \<Rightarrow> 'e option \<Rightarrow> 'e option" where
  "first_error (Some e) later = Some e"
| "first_error None later = later"

fun decode :: "(string \<Rightarrow> bool) \<Rightarrow> gotype \<Rightarrow> json \<Rightarrow> goval \<Rightarrow> goval \<times> json_error option"
  and decode_members ::
    "(string \<Rightarrow> bool) \<Rightarrow> (string \<times> string \<times> gotype) list \<Rightarrow> (string \<times> json) list \<Rightarrow> goval \<Rightarrow>
       goval \<times> json_error option" where
  "decode pf t JNull v = (v, None)"
| "decode pf t (JString s) v =
     (if t = TString then (VString s, None)
      else (v, Some (UnmarshalTypeError ''string'' (type_name t))))"
| "decode pf t (JBool b) v =
     (if t = TBool then (VBool b, None)
      else (v, Some (UnmarshalTypeError ''bool'' (type_name t))))"
| "decode pf t (JNumber n) v =
     (if t = TFloat64 then
        (if pf n then (VFloat64 (Some n), None)
         else (v, Some (UnmarshalTypeError (''number '' @ n) (type_name t))))
      else (v, Some (UnmarshalTypeError ''number'' (type_name t))))"
| "decode pf t (JArray es) v = (v, Some (UnmarshalTypeError ''array'' (type_name t)))"
| "decode pf t (JObject ms) v =
     (case t of
        TStruct name flds \<Rightarrow> decode_members pf flds ms v
      | _ \<Rightarrow> (v, Some (UnmarshalTypeError ''object'' (type_name t))))"
| "decode_members pf flds [] v = (v, None)"
| "decode_members pf flds (m # ms) v =
     (case find_field flds (fst m) of
        None \<Rightarrow> decode_members pf flds ms v
      | Some (name, ft) \<Rightarrow>
          (case get_field v name of
             None \<Rightarrow> decode_members pf flds ms v
           | Some old \<Rightarrow>
               (let (new, e1) = decode pf ft (snd m) old;
                    (v', e2) = decode_members pf flds ms (set_field v name new)
                in (v', first_error e1 e2))))"

text \<open>\<open>json.Unmarshal(data, &v)\<close> for a struct \<open>v\<close>.\<close>

definition Unmarshal :: "(string \<Rightarrow> bool) \<Rightarrow> gotype \<Rightarrow> string \<Rightarrow> goval \<Rightarrow> goval \<times> json_error option" where
  "Unmarshal pf t data v =
     (case json_parse data of
        None \<Rightarrow> (v, Some SyntaxError)
      | Some j \<Rightarrow> decode pf t j v)"

text \<open>
  \<open>json.Unmarshal(data, &xs)\<close> for a slice \<open>xs\<close> declared without a value: \<open>None\<close> is the
  nil slice, which \<open>null\<close> leaves in place, \<open>Some []\<close> the empty slice an empty array
  gives.
\<close>

fun decode_elements ::
  "(string \<Rightarrow> bool) \<Rightarrow> gotype \<Rightarrow> json list \<Rightarrow> goval list \<times> json_error option" where
  "decode_elements pf t [] = ([], None)"
| "decode_elements pf t (e # es) =
     (let (x, e1) = decode pf t e (zero_value t);
          (xs, e2) = decode_elements pf t es
      in (x # xs, first_error e1 e2))"

definition Unmarshal_slice ::
  "(string \<Rightarrow> bool) \<Rightarrow> gotype \<Rightarrow> string \<Rightarrow> goval list option \<times> json_error option" where
  "Unmarshal_slice pf t data =
     (case json_parse data of
        None \<Rightarrow> (None, Some SyntaxError)
      | Some JNull \<Rightarrow> (None, None)
      | Some (JArray es) \<Rightarrow> (let (xs, e) = decode_elements pf t es in (Some xs, e))
      | Some j \<Rightarrow> (None, Some (UnmarshalTypeError (json_kind j) (''[]'' @ type_name t))))"

definition TrelloList :: gotype where
  "TrelloList = TStruct ''api.TrelloList''
     [(''ID'', ''id'', TString), (''Name'', ''name'', TString), (''Closed'', ''closed'', TBool),
      (''IDBoard'', ''idBoard'', TString), (''Pos'', ''pos'', TFloat64),
      (''Subscribed'', ''subscribed'', TBool)]"

section \<open>Request engine: requests and failures (package api)\<close>

text \<open>
  The errors the program builds, by the place that builds them, and the three kinds the
  request engine distinguishes: a failure of the transport, a failure the service reports
  by its status, and a failure to decode the body.
\<close>

datatype error =
    RequestFailed string
  | ReadingResponse string
  | TrelloError int string
  | EncodingRequest string
  | URLError string
  | JSONError json_error
  | Errorf string
  | Wrapped string error

datatype failure_kind = Transport_Failure | API_Failure | Decode_Failure | Other_Failure

fun kind_of :: "error \<Rightarrow> failure_kind" where
  "kind_of (RequestFailed e) = Transport_Failure"
| "kind_of (ReadingResponse e) = Transport_Failure"
| "kind_of (TrelloError code msg) = API_Failure"
| "kind_of (JSONError e) = Decode_Failure"
| "kind_of (EncodingRequest e) = Other_Failure"
| "kind_of (URLError e) = Other_Failure"
| "kind_of (Errorf e) = Other_Failure"
| "kind_of (Wrapped prefix e) = Other_Failure"

text \<open>A request, and what the transport answers: a status and a body that reads or fails.\<close>

record Request =
  Method :: string
  Target :: string
  Header :: "(string \<times> string) list"
  Payload :: "string option"

record Response =
  StatusCode :: int
  Body :: "string + string"

definition Header_Set :: "string \<Rightarrow> string \<Rightarrow> Request \<Rightarrow> Request" where
  "Header_Set k v req = req\<lparr>Header := AList.update k v (Header req)\<rparr>"

definition doRequest :: "(Request \<Rightarrow> string + Response) \<Rightarrow> Request \<Rightarrow> error + string" where
  "doRequest Do req =
     (let req = Header_Set ''Accept'' ''application/json'' req in
      case Do req of
        Inl err \<Rightarrow> Inl (RequestFailed err)
      | Inr resp \<Rightarrow>
          (case Body resp of
             Inl err \<Rightarrow> Inl (ReadingResponse err)
           | Inr body \<Rightarrow>
               if 400 \<le> StatusCode resp then
                 (let msg = body in
                  Inl (TrelloError (StatusCode resp)
                         (''HTTP '' @ fmt_d (StatusCode resp) @ '': '' @ msg)))
               else Inr body))"

text \<open>\<open>http.NewRequest\<close> fails on an address that does not parse.\<close>

definition NewRequest ::
  "(string \<Rightarrow> URL option) \<Rightarrow> string \<Rightarrow> string \<Rightarrow> string option \<Rightarrow> error + Request" where
  "NewRequest url_Parse method url body =
     (case url_Parse url of
        None \<Rightarrow> Inl (URLError url)
      | Some u \<Rightarrow> Inr \<lparr>Method = method, Target = url, Header = [], Payload = body\<rparr>)"

text \<open>
  The payload of a request: \<open>nil\<close>, or a value with the outcome of its encoding.
\<close>

datatype any = nil | payload "string + string"

fun json_Marshal :: "any \<Rightarrow> string + string" where
  "json_Marshal nil = Inr ''null''"
| "json_Marshal (payload r) = r"

text \<open>
  A member, as \<open>types.go\<close> declares it. \<open>IDBoards\<close> is a slice: \<open>None\<close> is the nil slice.
\<close>

record Member =
  ID :: string
  FullName :: string
  Username :: string
  Email :: string
  Bio :: string
  AvatarURL :: string
  URL :: string
  IDBoards :: "string list option"
  MemberType :: string
  Confirmed :: bool

text \<open>
  What the program takes from its libraries and its surroundings: the address parser,
  the transport, the number parser, the encoder of an element, the time parser and
  formatter, the tab writer, and the text of a decoding error. The member type has a
  slice of strings among its fields; \<open>json.Unmarshal\<close> into a member is taken from the
  library as it is: \<open>unmarshal_Member\<close> gives the member after the call and the error.
\<close>

record 't library =
  parse_url :: "string \<Rightarrow> URL option"
  transport :: "Request \<Rightarrow> string + Response"
  parse_float_ok :: "string \<Rightarrow> bool"
  unmarshal_Member :: "string \<Rightarrow> Member \<times> json_error option"
  marshal :: "goval \<Rightarrow> string"
  parse_time :: "string \<Rightarrow> string \<Rightarrow> 't option"
  format_utc :: "'t \<Rightarrow> string \<Rightarrow> string"
  tab_writer :: "string list list \<Rightarrow> string"
  json_error_text :: "json_error \<Rightarrow> string"

text \<open>The four verbs.\<close>

definition Get :: "'t library \<Rightarrow> Client \<Rightarrow> string \<Rightarrow> Values \<Rightarrow> panic + (error + string)" where
  "Get lib c path params =
     (case buildURL (parse_url lib) c path params of
        Inl p \<Rightarrow> Inl p
      | Inr url \<Rightarrow>
          (case NewRequest (parse_url lib) ''GET'' url None of
             Inl err \<Rightarrow> Inr (Inl err)
           | Inr req \<Rightarrow> Inr (doRequest (transport lib) req)))"

definition Post ::
  "'t library \<Rightarrow> Client \<Rightarrow> string \<Rightarrow> Values \<Rightarrow> any \<Rightarrow> panic + (error + string)" where
  "Post lib c path params pl =
     (case json_Marshal pl of
        Inl err \<Rightarrow> Inr (Inl (EncodingRequest err))
      | Inr data \<Rightarrow>
          (case buildURL (parse_url lib) c path params of
             Inl p \<Rightarrow> Inl p
           | Inr url \<Rightarrow>
               (case NewRequest (parse_url lib) ''POST'' url (Some data) of
                  Inl err \<Rightarrow> Inr (Inl err)
                | Inr req \<Rightarrow>
                    Inr (doRequest (transport lib)
                           (Header_Set ''Content-Type'' ''application/json'' req)))))"

definition Put ::
  "'t library \<Rightarrow> Client \<Rightarrow> string \<Rightarrow> Values \<Rightarrow> any \<Rightarrow> panic + (error + string)" where
  "Put lib c path params pl =
     (case (if pl \<noteq> nil then map_sum id Some (json_Marshal pl) else Inr None) of
        Inl err \<Rightarrow> Inr (Inl (EncodingRequest err))
      | Inr bodyReader \<Rightarrow>
          (case buildURL (parse_url lib) c path params of
             Inl p \<Rightarrow> Inl p
           | Inr url \<Rightarrow>
               (case NewRequest (parse_url lib) ''PUT'' url bodyReader of
                  Inl err \<Rightarrow> Inr (Inl err)
                | Inr req \<Rightarrow>
                    Inr (doRequest (transport lib)
                           (if pl \<noteq> nil
                            then Header_Set ''Content-Type'' ''application/json'' req
                            else req)))))"

definition Delete :: "'t library \<Rightarrow> Client \<Rightarrow> string \<Rightarrow> Values \<Rightarrow> panic + (error + string)" where
  "Delete lib c path params =
     (case buildURL (parse_url lib) c path params of
        Inl p \<Rightarrow> Inl p
      | Inr url \<Rightarrow>
          (case NewRequest (parse_url lib) ''DELETE'' url None of
             Inl err \<Rightarrow> Inr (Inl err)
           | Inr req \<Rightarrow> Inr (doRequest (transport lib) req)))"

text \<open>The board type and the typed operations on top of the verbs.\<close>

definition BoardPrefs :: gotype where
  "BoardPrefs = TStruct ''api.BoardPrefs''
     [(''PermissionLevel'', ''permissionLevel'', TString), (''Voting'', ''voting'', TString),
      (''Comments'', ''comments'', TString), (''Background'', ''background'', TString),
      (''BackgroundColor'', ''backgroundColor'', TString),
      (''BackgroundImage'', ''backgroundImage'', TString),
      (''SelfJoin'', ''selfJoin'', TBool), (''CardCovers'', ''cardCovers'', TBool),
      (''IsTemplate'', ''isTemplate'', TBool), (''CardAging'', ''cardAging'', TString)]"

definition LabelNames :: gotype where
  "LabelNames = TStruct ''api.LabelNames''
     [(''Black'', ''black'', TString), (''Blue'', ''blue'', TString),
      (''Green'', ''green'', TString), (''Lime'', ''lime'', TString),
      (''Orange'', ''orange'', TString), (''Pink'', ''pink'', TString),
      (''Purple'', ''purple'', TString), (''Red'', ''red'', TString),
      (''Sky'', ''sky'', TString), (''Yellow'', ''yellow'', TString)]"

definition Board :: gotype where
  "Board = TStruct ''api.Board''
     [(''ID'', ''id'', TString), (''Name'', ''name'', TString), (''Desc'', ''desc'', TString),
      (''Closed'', ''closed'', TBool), (''IDOrganization'', ''idOrganization'', TString),
      (''URL'', ''url'', TString), (''ShortURL'', ''shortUrl'', TString),
      (''ShortLink'', ''shortLink'', TString),
      (''DateLastActivity'', ''dateLastActivity'', TString),
      (''Prefs'', ''prefs'', BoardPrefs), (''LabelNames'', ''labelNames'', LabelNames)]"

definition GetBoard ::
  "'t library \<Rightarrow> Client \<Rightarrow> string \<Rightarrow> Values \<Rightarrow> panic + (goval option \<times> error option)" where
  "GetBoard lib c ident params =
     (case Get lib c (''/boards/'' @ ident) params of
        Inl p \<Rightarrow> Inl p
      | Inr (Inl err) \<Rightarrow> Inr (None, Some err)
      | Inr (Inr body) \<Rightarrow>
          (let (b, e) = Unmarshal (parse_float_ok lib) Board body (zero_value Board)
           in Inr (Some b, map_option JSONError e)))"

definition CreateBoard ::
  "'t library \<Rightarrow> Client \<Rightarrow> string \<Rightarrow> string \<Rightarrow> string \<Rightarrow> Values \<Rightarrow>
     panic + (goval option \<times> error option)" where
  "CreateBoard lib c name desc idOrganization prefs =
     (case Post lib c ''/boards'' (CreateBoard_params name desc idOrganization prefs) nil of
        Inl p \<Rightarrow> Inl p
      | Inr (Inl err) \<Rightarrow> Inr (None, Some err)
      | Inr (Inr body) \<Rightarrow>
          (let (b, e) = Unmarshal (parse_float_ok lib) Board body (zero_value Board)
           in Inr (Some b, map_option JSONError e)))"

definition GetMember ::
  "'t library \<Rightarrow> Client \<Rightarrow> string \<Rightarrow> Values \<Rightarrow> panic + (Member option \<times> error option)" where
  "GetMember lib c idOrUsername params =
     (case Get lib c (''/members/'' @ idOrUsername) params of
        Inl p \<Rightarrow> Inl p
      | Inr (Inl err) \<Rightarrow> Inr (None, Some err)
      | Inr (Inr body) \<Rightarrow>
          (let (m, e) = unmarshal_Member lib body
           in Inr (Some m, map_option JSONError e)))"

definition GetBoardLists ::
  "'t library \<Rightarrow> Client \<Rightarrow> string \<Rightarrow> string \<Rightarrow> panic + (goval list option \<times> error option)" where
  "GetBoardLists lib c boardID filter' =
     (let params = [];
          params = (if filter' \<noteq> [] then Values_Set ''filter'' filter' params else params)
      in case Get lib c (''/boards/'' @ boardID @ ''/lists'') params of
           Inl p \<Rightarrow> Inl p
         | Inr (Inl err) \<Rightarrow> Inr (None, Some err)
         | Inr (Inr body) \<Rightarrow>
             (let (lists', e) = Unmarshal_slice (parse_float_ok lib) TrelloList body
              in Inr (lists', map_option JSONError e)))"

definition AddLabelToCard :: "'t library \<Rightarrow> Client \<Rightarrow> string \<Rightarrow> string \<Rightarrow> panic + error option" where
  "AddLabelToCard lib c cardID labelID =
     (let params = Values_Set ''value'' labelID [] in
      case Post lib c (''/cards/'' @ cardID @ ''/idLabels'') params nil of
        Inl p \<Rightarrow> Inl p
      | Inr (Inl err) \<Rightarrow> Inr (Some err)
      | Inr (Inr body) \<Rightarrow> Inr None)"

definition RemoveLabelFromCard ::
  "'t library \<Rightarrow> Client \<Rightarrow> string \<Rightarrow> string \<Rightarrow> panic + error option" where
  "RemoveLabelFromCard lib c cardID labelID =
     (case Delete lib c (''/cards/'' @ cardID @ ''/idLabels/'' @ labelID) [] of
        Inl p \<Rightarrow> Inl p
      | Inr (Inl err) \<Rightarrow> Inr (Some err)
      | Inr (Inr body) \<Rightarrow> Inr None)"

section \<open>Rendering and commands (packages output and cmd)\<close>

text \<open>Reading a field of a decoded struct.\<close>

fun string_field :: "goval \<Rightarrow> string \<Rightarrow> string" where
  "string_field v name = (case get_field v name of Some (VString s) \<Rightarrow> s | _ \<Rightarrow> [])"

fun bool_field :: "goval \<Rightarrow> string \<Rightarrow> bool" where
  "bool_field v name = (case get_field v name of Some (VBool b) \<Rightarrow> b | _ \<Rightarrow> False)"

definition FormatBool :: "bool \<Rightarrow> string" where
  "FormatBool b = (if b then ''yes'' else ''no'')"

text \<open>\<open>strings.Join\<close>: the separator stands between every two neighbours.\<close>

fun Join :: "string list \<Rightarrow> string \<Rightarrow> string" where
  "Join [] sep = []"
| "Join [e] sep = e"
| "Join (e # e' # es) sep = e @ sep @ Join (e' # es) sep"

definition FormatLabels :: "string list \<Rightarrow> string" where
  "FormatLabels labels = (if length labels = 0 then ''-'' else Join labels '', '')"

text \<open>\<open>json.Indent\<close> with the prefix empty and an indent of two spaces.\<close>

fun newline_indent :: "nat \<Rightarrow> string" where
  "newline_indent depth = CHR 0x0A # concat (replicate depth ''  '')"

fun indent_loop :: "nat \<Rightarrow> bool \<Rightarrow> bool \<Rightarrow> bool \<Rightarrow> string \<Rightarrow> string" where
  "indent_loop depth needIndent inString escaped [] = []"
| "indent_loop depth needIndent inString escaped (c # cs) =
     (if inString then
        c # indent_loop depth needIndent
              (\<not> (c = CHR 0x22 \<and> \<not> escaped)) (c = CHR 0x5C \<and> \<not> escaped) cs
      else if is_space c then indent_loop depth needIndent False False cs
      else
        (let closing = (c = CHR ''}'' \<or> c = CHR '']'');
             opened = (needIndent \<and> \<not> closing);
             depth1 = (if opened then depth + 1 else depth);
             pre = (if opened then newline_indent depth1 else [])
         in
           if c = CHR ''{'' \<or> c = CHR ''['' then
             pre @ c # indent_loop depth1 True False False cs
           else if c = CHR '','' then
             pre @ c # newline_indent depth1 @ indent_loop depth1 False False False cs
           else if c = CHR '':'' then
             pre @ c # CHR '' '' # indent_loop depth1 False False False cs
           else if closing then
             (if needIndent then c # indent_loop depth False False False cs
              else newline_indent (depth - 1) @ c # indent_loop (depth - 1) False False False cs)
           else pre @ c # indent_loop depth1 False (c = CHR 0x22) False cs))"

definition Indent :: "string \<Rightarrow> string option" where
  "Indent src = (if json_parse src = None then None else Some (indent_loop 0 False False False src))"

text \<open>\<open>json.Marshal\<close> of a slice: a nil slice is written \<open>null\<close>.\<close>

fun join_comma :: "string list \<Rightarrow> string" where
  "join_comma [] = []"
| "join_comma [p] = p"
| "join_comma (p # ps) = p @ '','' @ join_comma ps"

definition Marshal_slice :: "(goval \<Rightarrow> string) \<Rightarrow> goval list option \<Rightarrow> string" where
  "Marshal_slice enc v =
     (case v of
        None \<Rightarrow> ''null''
      | Some xs \<Rightarrow> ''['' @ join_comma (map enc xs) @ '']'')"

text \<open>The two streams of the process.\<close>

record process =
  stdout :: string
  stderr :: string

definition Println :: "string \<Rightarrow> process \<Rightarrow> process" where
  "Println s p = p\<lparr>stdout := stdout p @ s @ [CHR 0x0A]\<rparr>"

definition Print :: "string \<Rightarrow> process \<Rightarrow> process" where
  "Print s p = p\<lparr>stdout := stdout p @ s\<rparr>"

definition PrintJSON :: "string \<Rightarrow> bool \<Rightarrow> process \<Rightarrow> process \<times> error option" where
  "PrintJSON compact pretty p =
     (if pretty then
        (case Indent compact of
           None \<Rightarrow> (p, Some (JSONError SyntaxError))
         | Some text \<Rightarrow> (Print (text @ [CHR 0x0A]) p, None))
      else (Print (compact @ [CHR 0x0A]) p, None))"

definition PrintTable :: "(string list list \<Rightarrow> string) \<Rightarrow> string list \<Rightarrow> string list list \<Rightarrow> process \<Rightarrow> process" where
  "PrintTable tabwrite headers rows p = Print (tabwrite (headers # rows)) p"

text \<open>The message of an error, \<open>err.Error()\<close>.\<close>

fun Error :: "(json_error \<Rightarrow> string) \<Rightarrow> error \<Rightarrow> string" where
  "Error jt (RequestFailed e) = ''request failed: '' @ e"
| "Error jt (ReadingResponse e) = ''reading response: '' @ e"
| "Error jt (TrelloError code msg) = msg"
| "Error jt (EncodingRequest e) = ''encoding request: '' @ e"
| "Error jt (URLError e) = e"
| "Error jt (JSONError e) = jt e"
| "Error jt (Errorf e) = e"
| "Error jt (Wrapped prefix e) = prefix @ Error jt e"

text \<open>The card table.\<close>

record Label =
  Name :: string
  Color :: string

record Card =
  ID :: string
  IDShort :: int
  Name :: string
  Labels :: "Label list"
  Due :: "string option"



text \<open>The commands \<open>lists list\<close> and \<open>cards label\<close>.\<close>

fun list_rows :: "goval list \<Rightarrow> panic + string list list" where
  "list_rows [] = Inr []"
| "list_rows (l # ls) =
     (case Truncate (string_field l ''Name'') 50 of
        Inl p \<Rightarrow> Inl p
      | Inr name \<Rightarrow>
          (case list_rows ls of
             Inl p \<Rightarrow> Inl p
           | Inr rows \<Rightarrow>
               Inr ([string_field l ''ID'', name, FormatBool (bool_field l ''Closed'')] # rows)))"

fun slice_elems :: "'a list option \<Rightarrow> 'a list" where
  "slice_elems None = []"
| "slice_elems (Some xs) = xs"

record 't invocation =
  libs :: "'t library"
  cmd :: tty_context
  client :: Client

definition listsListCmd ::
  "'t invocation \<Rightarrow> string \<Rightarrow> string \<Rightarrow> process \<Rightarrow> panic + (process \<times> error option)" where
  "listsListCmd g listsListBoardID listsListFilter p =
     (if listsListBoardID = [] then Inr (p, Some (Errorf ''--board is required''))
      else
        case GetBoardLists (libs g) (client g) listsListBoardID listsListFilter of
          Inl pn \<Rightarrow> Inl pn
        | Inr (lists', Some err) \<Rightarrow> Inr (p, Some err)
        | Inr (lists', None) \<Rightarrow>
            if IsJSON (cmd g) then
              Inr (PrintJSON (Marshal_slice (marshal (libs g)) lists') (IsPretty (cmd g)) p)
            else if length (slice_elems lists') = 0 then Inr (Println ''No lists found.'' p, None)
            else
              (let headers = [''ID'', ''NAME'', ''CLOSED''] in
               case list_rows (slice_elems lists') of
                 Inl pn \<Rightarrow> Inl pn
               | Inr rows \<Rightarrow> Inr (PrintTable (tab_writer (libs g)) headers rows p, None)))"

definition cardsLabelCmd ::
  "'t invocation \<Rightarrow> string \<Rightarrow> string \<Rightarrow> string \<Rightarrow> process \<Rightarrow> panic + (process \<times> error option)" where
  "cardsLabelCmd g arg0 cardsLabelAdd cardsLabelRemove p =
     (if cardsLabelAdd = [] \<and> cardsLabelRemove = [] then
        Inr (p, Some (Errorf ''provide --add <label-id> or --remove <label-id>''))
      else
        case (if cardsLabelAdd \<noteq> [] then
                (case AddLabelToCard (libs g) (client g) arg0 cardsLabelAdd of
                   Inl pn \<Rightarrow> Inl pn
                 | Inr (Some err) \<Rightarrow> Inr (p, Some err)
                 | Inr None \<Rightarrow>
                     Inr (Print (''Label '' @ cardsLabelAdd @ '' added to card '' @ arg0 @
                            ''.'' @ [CHR 0x0A]) p, None))
              else Inr (p, None)) of
          Inl pn \<Rightarrow> Inl pn
        | Inr (p1, Some err) \<Rightarrow> Inr (p1, Some err)
        | Inr (p1, None) \<Rightarrow>
            if cardsLabelRemove \<noteq> [] then
              (case RemoveLabelFromCard (libs g) (client g) arg0 cardsLabelRemove of
                 Inl pn \<Rightarrow> Inl pn
               | Inr (Some err) \<Rightarrow> Inr (p1, Some err)
               | Inr None \<Rightarrow>
                   Inr (Print (''Label '' @ cardsLabelRemove @ '' removed from card '' @ arg0 @
                          ''.'' @ [CHR 0x0A]) p1, None))
            else Inr (p1, None))"

text \<open>
  The root command: credentials come from the environment or from the configuration
  file; the error a command returns is written by the command framework as
  \<open>Error: <message>\<close> on the error stream, and \<open>Execute\<close> exits with status 1.
\<close>

record Config =
  APIKey :: string
  APIToken :: string
  MemberID :: string
  FullName :: string
  Username :: string

text \<open>
  The surroundings of the process: the libraries, the terminal and the flags, the two
  environment variables, and the configuration file (what loading it gives, what saving
  a configuration gives, and its path).
\<close>

record 't process_env =
  library :: "'t library"
  terminal :: tty_context
  TRELLO_API_KEY :: string
  TRELLO_API_TOKEN :: string
  config_Load :: "error + Config"
  config_Save :: "Config \<Rightarrow> error option"
  config_Path :: string

definition resolveCredentials :: "'t process_env \<Rightarrow> error + string \<times> string" where
  "resolveCredentials ctx =
     (let envKey = TRELLO_API_KEY ctx; envToken = TRELLO_API_TOKEN ctx in
      if envKey \<noteq> [] \<and> envToken \<noteq> [] then Inr (envKey, envToken)
      else
        case config_Load ctx of
          Inl err \<Rightarrow> Inl (Wrapped ''failed to load config: '' err)
        | Inr cfg \<Rightarrow>
            if APIKey cfg \<noteq> [] \<and> APIToken cfg \<noteq> [] then Inr (APIKey cfg, APIToken cfg)
            else Inl (Errorf (''not authenticated '' @ [CHR 0xE2, CHR 0x80, CHR 0x94] @
                   '' run: trello auth setup'' @ [CHR 0x0A] @
                   ''or set TRELLO_API_KEY and TRELLO_API_TOKEN env vars'')))"

definition NewClient :: "string \<Rightarrow> string \<Rightarrow> Client" where
  "NewClient key token = \<lparr>apiKey = key, apiToken = token\<rparr>"

definition maskOrEmpty :: "string \<Rightarrow> string" where
  "maskOrEmpty v =
     (if v = [] then ''(not set)''
      else if length v \<le> 8 then ''***''
      else take 4 v @ ''...'' @ drop (length v - 4) v)"

text \<open>
  \<open>auth setup\<close> validates the credentials it is given by fetching the member \<open>me\<close> with
  a client of its own, and wraps the error of that request.
\<close>

definition runAuthSetup ::
  "'t process_env \<Rightarrow> string \<Rightarrow> string \<Rightarrow> process \<Rightarrow> panic + (process \<times> error option)" where
  "runAuthSetup ctx apiKey' apiToken' p =
     (if length apiKey' < 8 then
        Inr (p, Some (Errorf (''API key looks too short '' @ [CHR 0xE2, CHR 0x80, CHR 0x94] @
               '' check your key at https://trello.com/power-ups/admin'')))
      else if length apiToken' < 8 then
        Inr (p, Some (Errorf (''API token looks too short '' @ [CHR 0xE2, CHR 0x80, CHR 0x94] @
               '' re-generate it at https://trello.com/1/authorize?expiration=never'' @
               ''&scope=read,write&response_type=token&key='' @ apiKey')))
      else
        (let c = NewClient apiKey' apiToken' in
         case GetMember (library ctx) c ''me'' [] of
           Inl pn \<Rightarrow> Inl pn
         | Inr (member, Some err) \<Rightarrow>
             Inr (p, Some (Wrapped ''credentials validation failed: '' err))
         | Inr (None, None) \<Rightarrow> Inl NilPointerDereference
         | Inr (Some member, None) \<Rightarrow>
             (let cfg = \<lparr>APIKey = apiKey', APIToken = apiToken', MemberID = Member.ID member,
                          FullName = Member.FullName member,
                          Username = Member.Username member\<rparr>
              in case config_Save ctx cfg of
                   Some err \<Rightarrow> Inr (p, Some (Wrapped ''saving config: '' err))
                 | None \<Rightarrow>
                     (let p1 = Print (''Credentials saved to '' @ config_Path ctx @ [CHR 0x0A]) p;
                          p2 = Print (''Authenticated as: '' @ Member.FullName member @
                                 '' (@'' @ Member.Username member @ '')'' @ [CHR 0x0A]) p1;
                          p3 = Print (''API key:          '' @ maskOrEmpty apiKey' @
                                 [CHR 0x0A]) p2;
                          p4 = Print (''API token:        '' @ maskOrEmpty apiToken' @
                                 [CHR 0x0A]) p3
                      in Inr (p4, None)))))"

text \<open>
  The commands: \<open>lists list\<close> with its two flags, \<open>cards label\<close> with its argument and
  its two flags, \<open>auth setup\<close> with its two arguments.
\<close>

datatype command =
    ListsList string string
  | CardsLabel string string string
  | AuthSetup string string

text \<open>
  Before a command that is not under \<open>auth\<close> runs, the credentials are resolved and the
  client is made from them; a command under \<open>auth\<close> runs without.
\<close>

definition rootCmd_Execute ::
  "'t process_env \<Rightarrow> command \<Rightarrow> process \<Rightarrow> panic + (process \<times> error option)" where
  "rootCmd_Execute ctx command p =
     (let result =
        (case command of
           AuthSetup key token \<Rightarrow> runAuthSetup ctx key token p
         | ListsList board filter' \<Rightarrow>
             (case resolveCredentials ctx of
                Inl err \<Rightarrow> Inr (p, Some err)
              | Inr (key, token) \<Rightarrow>
                  listsListCmd \<lparr>libs = library ctx, cmd = terminal ctx,
                    client = NewClient key token\<rparr> board filter' p)
         | CardsLabel arg0 add remove \<Rightarrow>
             (case resolveCredentials ctx of
                Inl err \<Rightarrow> Inr (p, Some err)
              | Inr (key, token) \<Rightarrow>
                  cardsLabelCmd \<lparr>libs = library ctx, cmd = terminal ctx,
                    client = NewClient key token\<rparr> arg0 add remove p))
      in case result of
           Inl pn \<Rightarrow> Inl pn
         | Inr (p1, Some err) \<Rightarrow>
             Inr (p1\<lparr>stderr := stderr p1 @ ''Error: '' @
                    Error (json_error_text (library ctx)) err @ [CHR 0x0A]\<rparr>, Some err)
         | Inr (p1, None) \<Rightarrow> Inr (p1, None))"

definition Execute :: "'t process_env \<Rightarrow> command \<Rightarrow> panic + (process \<times> int)" where
  "Execute ctx command =
     (case rootCmd_Execute ctx command \<lparr>stdout = [], stderr = []\<rparr> of
        Inl pn \<Rightarrow> Inl pn
      | Inr (p, Some err) \<Rightarrow> Inr (p, 1)
      | Inr (p, None) \<Rightarrow> Inr (p, 0))"

text \<open>
  The number of line feeds in a text. A text that ends with a line feed has as many
  lines.
\<close>

definition line_feeds :: "string \<Rightarrow> nat" where
  "line_feeds s = length (filter (\<lambda>c. c = CHR 0x0A) s)"

section \<open>Example surroundings\<close>

text \<open>
  A transport that gives one answer to every request, a transport that accepts the
  addition of a label and knows no other resource, and libraries and an environment
  around them.
\<close>

definition answer :: "string + Response \<Rightarrow> Request \<Rightarrow> string + Response" where
  "answer r req = r"


definition example_library :: "(Request \<Rightarrow> string + Response) \<Rightarrow> unit library" where
  "example_library tr =
     \<lparr>parse_url = example_Parse, transport = tr, parse_float_ok = (\<lambda>lit. True),
      unmarshal_Member = (\<lambda>body. (Member.make [] [] [] [] [] [] [] None [] False, None)),
      marshal = (\<lambda>v. ''{}''), parse_time = (\<lambda>layout v. None), format_utc = (\<lambda>t layout. []),
      tab_writer = (\<lambda>ls. concat (map concat ls)), json_error_text = (\<lambda>e. ''json error'')\<rparr>"

definition example_env :: "(Request \<Rightarrow> string + Response) \<Rightarrow> tty_context \<Rightarrow> unit process_env" where
  "example_env tr t =
     \<lparr>library = example_library tr, terminal = t, TRELLO_API_KEY = ''key12345'',
      TRELLO_API_TOKEN = ''token123'', config_Load = Inr \<lparr>APIKey = [], APIToken = [],
        MemberID = [], FullName = [], Username = []\<rparr>,
      config_Save = (\<lambda>cfg. None), config_Path = ''/home/u/.config/trello/config.json''\<rparr>"


definition on_terminal :: tty_context where
  "on_terminal = \<lparr>IsTerminal = True, IsCygwinTerminal = False, json_flag = False, pretty_flag = False\<rparr>"

section \<open>Theorems: requests, decoding and commands\<close>

lemma doRequest_answer:
  assumes "\<forall>r. tr r = Inr resp" and "Body resp = Inr text"
  shows "doRequest tr req =
     (if 400 \<le> StatusCode resp
      then Inl (TrelloError (StatusCode resp) (''HTTP '' @ fmt_d (StatusCode resp) @ '': '' @ text))
      else Inr text)"
  using assms by (simp add: doRequest_def Let_def)

lemma buildURL_total:
  assumes "\<forall>s. \<exists>u. parse s = Some u"
  shows "\<exists>url. buildURL parse c path params = Inr url"
proof -
  obtain u where "parse (apiBase @ path) = Some u" using assms by blast
  then show ?thesis by (simp add: buildURL_def)
qed

lemma NewRequest_total:
  assumes "\<forall>s. \<exists>u. parse s = Some u"
  shows "\<exists>req. NewRequest parse m url b = Inr req"
proof -
  obtain u where "parse url = Some u" using assms by blast
  then show ?thesis by (simp add: NewRequest_def)
qed

lemma Get_answer:
  assumes "\<forall>s. \<exists>u. parse_url lib s = Some u"
    and "\<forall>r. transport lib r = Inr resp" and "Body resp = Inr text"
  shows "Get lib c path params =
     Inr (if 400 \<le> StatusCode resp
          then Inl (TrelloError (StatusCode resp)
                 (''HTTP '' @ fmt_d (StatusCode resp) @ '': '' @ text))
          else Inr text)"
proof -
  obtain url where u: "buildURL (parse_url lib) c path params = Inr url"
    using buildURL_total [OF assms(1)] by blast
  obtain req where r: "NewRequest (parse_url lib) ''GET'' url None = Inr req"
    using NewRequest_total [OF assms(1)] by blast
  show ?thesis
    by (simp add: Get_def u r doRequest_answer [OF assms(2,3)])
qed

lemma Delete_answer:
  assumes "\<forall>s. \<exists>u. parse_url lib s = Some u"
    and "\<forall>r. transport lib r = Inr resp" and "Body resp = Inr text"
  shows "Delete lib c path params =
     Inr (if 400 \<le> StatusCode resp
          then Inl (TrelloError (StatusCode resp)
                 (''HTTP '' @ fmt_d (StatusCode resp) @ '': '' @ text))
          else Inr text)"
proof -
  obtain url where u: "buildURL (parse_url lib) c path params = Inr url"
    using buildURL_total [OF assms(1)] by blast
  obtain req where r: "NewRequest (parse_url lib) ''DELETE'' url None = Inr req"
    using NewRequest_total [OF assms(1)] by blast
  show ?thesis
    by (simp add: Delete_def u r doRequest_answer [OF assms(2,3)])
qed

lemma Post_answer:
  assumes "\<forall>s. \<exists>u. parse_url lib s = Some u"
    and "\<forall>r. transport lib r = Inr resp" and "Body resp = Inr text"
    and "json_Marshal pl = Inr data"
  shows "Post lib c path params pl =
     Inr (if 400 \<le> StatusCode resp
          then Inl (TrelloError (StatusCode resp)
                 (''HTTP '' @ fmt_d (StatusCode resp) @ '': '' @ text))
          else Inr text)"
proof -
  obtain url where u: "buildURL (parse_url lib) c path params = Inr url"
    using buildURL_total [OF assms(1)] by blast
  obtain req where r: "NewRequest (parse_url lib) ''POST'' url (Some data) = Inr req"
    using NewRequest_total [OF assms(1)] by blast
  show ?thesis
    by (simp add: Post_def u r assms(4) doRequest_answer [OF assms(2,3)])
qed

lemma Put_answer:
  assumes "\<forall>s. \<exists>u. parse_url lib s = Some u"
    and "\<forall>r. transport lib r = Inr resp" and "Body resp = Inr text"
    and "json_Marshal pl = Inr data"
  shows "Put lib c path params pl =
     Inr (if 400 \<le> StatusCode resp
          then Inl (TrelloError (StatusCode resp)
                 (''HTTP '' @ fmt_d (StatusCode resp) @ '': '' @ text))
          else Inr text)"
proof -
  obtain url where u: "buildURL (parse_url lib) c path params = Inr url"
    using buildURL_total [OF assms(1)] by blast
  obtain req1 where r1: "NewRequest (parse_url lib) ''PUT'' url None = Inr req1"
    using NewRequest_total [OF assms(1)] by blast
  obtain req2 where r2: "NewRequest (parse_url lib) ''PUT'' url (Some data) = Inr req2"
    using NewRequest_total [OF assms(1)] by blast
  show ?thesis
    by (cases "pl = nil") (simp_all add: Put_def u r1 r2 assms(4) doRequest_answer [OF assms(2,3)])
qed

lemma GetBoard_error:
  "Get lib c (''/boards/'' @ ident) params = Inr (Inl err) \<Longrightarrow>
   GetBoard lib c ident params = Inr (None, Some err)"
  by (simp add: GetBoard_def)

text \<open>
  Claim C1. When the transport answers with a status of 400 or more and a body that
  reads, \<open>doRequest\<close>, the four verbs and a typed operation on top of them return the
  API failure that carries this status and, after \<open>HTTP <status>: \<close>, the body as it
  is; the failure is not a decode failure.
\<close>

theorem status_ge_400_is_API_failure:
  assumes "\<forall>s. \<exists>u. parse_url lib s = Some u"
    and "\<forall>r. transport lib r = Inr resp" and "Body resp = Inr text"
    and "400 \<le> StatusCode resp" and "json_Marshal pl = Inr data"
  shows "let E = TrelloError (StatusCode resp)
                   (''HTTP '' @ fmt_d (StatusCode resp) @ '': '' @ text)
         in doRequest (transport lib) req = Inl E \<and>
            Get lib c path params = Inr (Inl E) \<and>
            Post lib c path params pl = Inr (Inl E) \<and>
            Put lib c path params pl = Inr (Inl E) \<and>
            Delete lib c path params = Inr (Inl E) \<and>
            GetBoard lib c ident params = Inr (None, Some E) \<and>
            kind_of E = API_Failure \<and>
            Error jt E = ''HTTP '' @ fmt_d (StatusCode resp) @ '': '' @ text"
proof -
  have "Get lib c (''/boards/'' @ ident) params =
      Inr (Inl (TrelloError (StatusCode resp)
        (''HTTP '' @ fmt_d (StatusCode resp) @ '': '' @ text)))"
    using assms(4) by (simp add: Get_answer [OF assms(1,2,3)])
  then have "GetBoard lib c ident params =
      Inr (None, Some (TrelloError (StatusCode resp)
        (''HTTP '' @ fmt_d (StatusCode resp) @ '': '' @ text)))"
    by (rule GetBoard_error)
  then show ?thesis
    using assms(4)
    by (simp add: Let_def doRequest_answer [OF assms(2,3)] Get_answer [OF assms(1,2,3)]
        Post_answer [OF assms(1,2,3,5)] Put_answer [OF assms(1,2,3,5)]
        Delete_answer [OF assms(1,2,3)])
qed

lemma example_Parse_total: "\<forall>s. \<exists>u. parse_url (example_library tr) s = Some u"
  by (simp add: example_library_def example_Parse_def)

theorem status_ge_400_is_API_failure_witness:
  "Get (example_library (answer (Inr \<lparr>StatusCode = 404, Body = Inr ''invalid id''\<rparr>)))
      \<lparr>apiKey = ''K'', apiToken = ''T''\<rparr> ''/boards/b1'' [] =
     Inr (Inl (TrelloError 404 ''HTTP 404: invalid id'')) \<and>
   GetBoard (example_library (answer (Inr \<lparr>StatusCode = 404, Body = Inr ''invalid id''\<rparr>)))
      \<lparr>apiKey = ''K'', apiToken = ''T''\<rparr> ''b1'' [] =
     Inr (None, Some (TrelloError 404 ''HTTP 404: invalid id'')) \<and>
   kind_of (TrelloError 404 ''HTTP 404: invalid id'') = API_Failure"
proof -
  let ?resp = "\<lparr>StatusCode = 404, Body = Inr ''invalid id''\<rparr>"
  let ?lib = "example_library (answer (Inr ?resp))"
  have h1: "\<forall>s. \<exists>u. parse_url ?lib s = Some u" by (rule example_Parse_total)
  have h2: "\<forall>r. transport ?lib r = Inr ?resp" by (simp add: example_library_def answer_def)
  have h3: "Body ?resp = Inr ''invalid id''" by simp
  have h4: "400 \<le> StatusCode ?resp" by simp
  have h5: "json_Marshal nil = Inr ''null''" by simp
  have f: "fmt_d 404 = ''404''" by (simp add: fmt_d_def digits.simps)
  show ?thesis
    using status_ge_400_is_API_failure [OF h1 h2 h3 h4 h5,
        where c = "\<lparr>apiKey = ''K'', apiToken = ''T''\<rparr>" and path = "''/boards/b1''"
          and params = "[]" and ident = "''b1''"]
    by (simp add: Let_def f)
qed

lemma GetBoard_body:
  "Get lib c (''/boards/'' @ ident) params = Inr (Inr body) \<Longrightarrow>
   GetBoard lib c ident params =
     Inr (Some (fst (Unmarshal (parse_float_ok lib) Board body (zero_value Board))),
          map_option JSONError (snd (Unmarshal (parse_float_ok lib) Board body (zero_value Board))))"
  by (simp add: GetBoard_def split: prod.splits)

lemma json_parse_empty_object: "json_parse ''{}'' = Some (JObject [])"
  by (simp add: json_parse_def tokenize.simps is_space_def maxNestingDepth_def)

lemma json_parse_null: "json_parse ''null'' = Some JNull"
  by (simp add: json_parse_def tokenize.simps is_space_def is_digit_def)

lemma json_parse_empty_array: "json_parse ''[]'' = Some (JArray [])"
  by (simp add: json_parse_def tokenize.simps is_space_def maxNestingDepth_def)

lemma decode_Board_mismatch:
  "j \<noteq> JNull \<Longrightarrow> \<forall>ms. j \<noteq> JObject ms \<Longrightarrow>
   decode pf Board j v = (v, Some (UnmarshalTypeError (json_kind j) ''api.Board''))"
  by (cases j) (simp_all add: Board_def)

lemma decode_Board_empty:
  "decode pf Board JNull v = (v, None)" "decode pf Board (JObject []) v = (v, None)"
  by (simp_all add: Board_def)

text \<open>
  Claim C6, as the code has it. On a body received with a success status \<open>GetBoard\<close>
  returns a decode failure exactly when \<open>json.Unmarshal\<close> reports one: the body is not
  a JSON text,
  or a value in it has a kind that does not fit its destination (an array, a string, a
  number or a boolean where the board is expected). The bodies \<open>null\<close> and \<open>{}\<close>
  give the zero-valued board and no error. Every error returned on such a body is a
  decode failure.
\<close>

theorem GetBoard_decode_failure:
  assumes "Get lib c (''/boards/'' @ ident) params = Inr (Inr body)"
  shows "(json_parse body = None \<longrightarrow>
            GetBoard lib c ident params =
              Inr (Some (zero_value Board), Some (JSONError SyntaxError))) \<and>
         (\<forall>j. json_parse body = Some j \<longrightarrow>
            GetBoard lib c ident params =
              Inr (Some (fst (decode (parse_float_ok lib) Board j (zero_value Board))),
                   map_option JSONError
                     (snd (decode (parse_float_ok lib) Board j (zero_value Board))))) \<and>
         (\<forall>j. json_parse body = Some j \<longrightarrow> j \<noteq> JNull \<longrightarrow> (\<forall>ms. j \<noteq> JObject ms) \<longrightarrow>
            GetBoard lib c ident params =
              Inr (Some (zero_value Board),
                   Some (JSONError (UnmarshalTypeError (json_kind j) ''api.Board'')))) \<and>
         (json_parse body = Some JNull \<or> json_parse body = Some (JObject []) \<longrightarrow>
            GetBoard lib c ident params = Inr (Some (zero_value Board), None)) \<and>
         (\<forall>b e. GetBoard lib c ident params = Inr (b, Some e) \<longrightarrow> kind_of e = Decode_Failure)"
proof -
  note g = GetBoard_body [OF assms]
  have a: "json_parse body = None \<longrightarrow>
      GetBoard lib c ident params = Inr (Some (zero_value Board), Some (JSONError SyntaxError))"
    by (simp add: g Unmarshal_def)
  have b: "\<forall>j. json_parse body = Some j \<longrightarrow>
      GetBoard lib c ident params =
        Inr (Some (fst (decode (parse_float_ok lib) Board j (zero_value Board))),
             map_option JSONError (snd (decode (parse_float_ok lib) Board j (zero_value Board))))"
    by (simp add: g Unmarshal_def del: decode.simps)
  have c: "\<forall>j. json_parse body = Some j \<longrightarrow> j \<noteq> JNull \<longrightarrow> (\<forall>ms. j \<noteq> JObject ms) \<longrightarrow>
      GetBoard lib c ident params =
        Inr (Some (zero_value Board),
             Some (JSONError (UnmarshalTypeError (json_kind j) ''api.Board'')))"
    by (simp add: g Unmarshal_def decode_Board_mismatch del: decode.simps)
  have d: "json_parse body = Some JNull \<or> json_parse body = Some (JObject []) \<longrightarrow>
      GetBoard lib c ident params = Inr (Some (zero_value Board), None)"
    by (auto simp: g Unmarshal_def decode_Board_empty simp del: decode.simps)
  have e: "\<forall>b e. GetBoard lib c ident params = Inr (b, Some e) \<longrightarrow> kind_of e = Decode_Failure"
    by (auto simp: g)
  show ?thesis using a b c d e by blast
qed

lemma Get_example_200:
  "Get (example_library (answer (Inr \<lparr>StatusCode = 200, Body = Inr text\<rparr>))) c path params =
     Inr (Inr text)"
proof -
  let ?resp = "\<lparr>StatusCode = 200, Body = Inr text\<rparr>"
  let ?lib = "example_library (answer (Inr ?resp))"
  have h2: "\<forall>r. transport ?lib r = Inr ?resp" by (simp add: example_library_def answer_def)
  have h3: "Body ?resp = Inr text" by simp
  show ?thesis using Get_answer [OF example_Parse_total h2 h3] by simp
qed

theorem GetBoard_decode_failure_witness:
  "Get (example_library (answer (Inr \<lparr>StatusCode = 200, Body = Inr ''[]''\<rparr>)))
      \<lparr>apiKey = ''K'', apiToken = ''T''\<rparr> (''/boards/'' @ ''b1'') [] = Inr (Inr ''[]'') \<and>
   json_parse ''[]'' = Some (JArray []) \<and>
   GetBoard (example_library (answer (Inr \<lparr>StatusCode = 200, Body = Inr ''[]''\<rparr>)))
      \<lparr>apiKey = ''K'', apiToken = ''T''\<rparr> ''b1'' [] =
     Inr (Some (zero_value Board),
          Some (JSONError (UnmarshalTypeError ''array'' ''api.Board''))) \<and>
   kind_of (JSONError (UnmarshalTypeError ''array'' ''api.Board'')) = Decode_Failure"
proof -
  let ?lib = "example_library (answer (Inr \<lparr>StatusCode = 200, Body = Inr ''[]''\<rparr>))"
  let ?c = "\<lparr>apiKey = ''K'', apiToken = ''T''\<rparr>"
  have h: "Get ?lib ?c (''/boards/'' @ ''b1'') [] = Inr (Inr ''[]'')" by (rule Get_example_200)
  show ?thesis
    using h GetBoard_decode_failure [OF h] json_parse_empty_array
    by (simp add: decode_Board_mismatch del: decode.simps)
qed

theorem GetBoard_silent_zero_counterexample:
  "GetBoard (example_library (answer (Inr \<lparr>StatusCode = 200, Body = Inr ''{}''\<rparr>)))
      \<lparr>apiKey = ''K'', apiToken = ''T''\<rparr> ''b1'' [] =
     Inr (Some (zero_value Board), None) \<and>
   GetBoard (example_library (answer (Inr \<lparr>StatusCode = 200, Body = Inr ''null''\<rparr>)))
      \<lparr>apiKey = ''K'', apiToken = ''T''\<rparr> ''b1'' [] =
     Inr (Some (zero_value Board), None)"
proof -
  let ?c = "\<lparr>apiKey = ''K'', apiToken = ''T''\<rparr>"
  have h: "Get (example_library (answer (Inr \<lparr>StatusCode = 200, Body = Inr body\<rparr>))) ?c
      (''/boards/'' @ ''b1'') [] = Inr (Inr body)" for body
    by (rule Get_example_200)
  show ?thesis
    by (simp add: GetBoard_body [OF h] Unmarshal_def json_parse_empty_object json_parse_null
        decode_Board_empty del: decode.simps)
qed







lemma resolveCredentials_example:
  "resolveCredentials (example_env tr t) = Inr (''key12345'', ''token123'')"
  by (simp add: resolveCredentials_def example_env_def)




text \<open>
  A request that is built and answered: what the verbs return then, and what the commands
  make of a 404.
\<close>

lemma Get_sent:
  assumes "buildURL (parse_url lib) c path params = Inr url"
    and "NewRequest (parse_url lib) ''GET'' url None = Inr req"
    and "transport lib (Header_Set ''Accept'' ''application/json'' req) = Inr resp"
    and "Body resp = Inr body"
  shows "Get lib c path params =
     Inr (if 400 \<le> StatusCode resp
          then Inl (TrelloError (StatusCode resp)
                 (''HTTP '' @ fmt_d (StatusCode resp) @ '': '' @ body))
          else Inr body)"
  using assms by (simp add: Get_def doRequest_def Let_def)



lemma fmt_d_404: "fmt_d 404 = ''404''"
  by (simp add: fmt_d_def digits.simps)

lemma GetBoardLists_error:
  "Get lib c (''/boards/'' @ boardID @ ''/lists'')
     (if filter' \<noteq> [] then Values_Set ''filter'' filter' [] else []) = Inr (Inl err) \<Longrightarrow>
   GetBoardLists lib c boardID filter' = Inr (None, Some err)"
  by (simp add: GetBoardLists_def Let_def)

lemma Execute_ListsList_error:
  assumes "resolveCredentials ctx = Inr (key, token)"
    and "listsListCmd \<lparr>libs = library ctx, cmd = terminal ctx, client = NewClient key token\<rparr>
           board filter' \<lparr>stdout = [], stderr = []\<rparr> = Inr (p, Some err)"
  shows "Execute ctx (ListsList board filter') =
     Inr (p\<lparr>stderr := stderr p @ ''Error: '' @ Error (json_error_text (library ctx)) err @
            [CHR 0x0A]\<rparr>, 1)"
  using assms by (simp add: Execute_def rootCmd_Execute_def)



lemma listsList_404:
  assumes "Body resp = Inr body" and "StatusCode resp = 404"
    and "resolveCredentials ctx = Inr (key, token)" and "board \<noteq> []"
    and "buildURL (parse_url (library ctx)) (NewClient key token)
           (''/boards/'' @ board @ ''/lists'')
           (if filter' \<noteq> [] then Values_Set ''filter'' filter' [] else []) = Inr url"
    and "NewRequest (parse_url (library ctx)) ''GET'' url None = Inr req"
    and "transport (library ctx) (Header_Set ''Accept'' ''application/json'' req) = Inr resp"
  shows "Execute ctx (ListsList board filter') =
           Inr (\<lparr>stdout = [], stderr = ''Error: HTTP 404: '' @ body @ [CHR 0x0A]\<rparr>, 1)"
proof -
  let ?E = "TrelloError 404 (''HTTP 404: '' @ body)"
  let ?g = "\<lparr>libs = library ctx, cmd = terminal ctx, client = NewClient key token\<rparr>"
  let ?p = "\<lparr>stdout = [], stderr = []\<rparr>"
  have "Get (library ctx) (NewClient key token) (''/boards/'' @ board @ ''/lists'')
      (if filter' \<noteq> [] then Values_Set ''filter'' filter' [] else []) = Inr (Inl ?E)"
    using assms(2) Get_sent [OF assms(5,6,7,1)] by (simp add: fmt_d_404)
  then have "GetBoardLists (library ctx) (NewClient key token) board filter' =
      Inr (None, Some ?E)"
    by (rule GetBoardLists_error)
  then have "listsListCmd ?g board filter' ?p = Inr (?p, Some ?E)"
    using assms(4) by (simp add: listsListCmd_def)
  then show ?thesis
    using Execute_ListsList_error [OF assms(3), of board filter' ?p ?E] by simp
qed





lemma line_feeds_append: "line_feeds (a @ b) = line_feeds a + line_feeds b"
  by (simp add: line_feeds_def)



lemma NewRequest_Method: "NewRequest parse m url b = Inr req \<Longrightarrow> Method req = m"
  by (auto simp: NewRequest_def split: option.splits)


lemma example_env_parses: "\<forall>s. \<exists>u. parse_url (library (example_env tr t)) s = Some u"
  by (simp add: example_env_def example_Parse_total)

lemma example_request:
  "\<exists>url req. buildURL (parse_url (library (example_env tr t))) c path params = Inr url \<and>
     NewRequest (parse_url (library (example_env tr t))) m url b = Inr req \<and> Method req = m"
proof -
  obtain url where u: "buildURL (parse_url (library (example_env tr t))) c path params = Inr url"
    using buildURL_total [OF example_env_parses] by blast
  obtain req where r: "NewRequest (parse_url (library (example_env tr t))) m url b = Inr req"
    using NewRequest_total [OF example_env_parses] by blast
  show ?thesis using u r NewRequest_Method [OF r] by blast
qed

lemma answer_answers: "transport (library (example_env (answer a) t)) r = a"
  by (simp add: example_env_def example_library_def answer_def)




text \<open>A body of two lines gives an error text of two lines.\<close>

lemma two_line_body_example:
  "Execute (example_env (answer (Inr \<lparr>StatusCode = 404,
       Body = Inr (''no such board'' @ [CHR 0x0A] @ ''check the id'')\<rparr>)) on_terminal)
      (ListsList ''b1'' []) =
     Inr (\<lparr>stdout = [],
            stderr = ''Error: HTTP 404: no such board'' @ [CHR 0x0A] @ ''check the id'' @
              [CHR 0x0A]\<rparr>, 1) \<and>
   line_feeds (''Error: HTTP 404: no such board'' @ [CHR 0x0A] @ ''check the id'' @
     [CHR 0x0A]) = 2"
proof -
  let ?body = "''no such board'' @ [CHR 0x0A] @ ''check the id''"
  let ?resp = "\<lparr>StatusCode = 404, Body = Inr ?body\<rparr>"
  let ?ctx = "example_env (answer (Inr ?resp)) on_terminal"
  obtain u1 r1 where q1:
    "buildURL (parse_url (library ?ctx)) (NewClient ''key12345'' ''token123'')
       (''/boards/'' @ ''b1'' @ ''/lists'')
       (if ([] :: string) \<noteq> [] then Values_Set ''filter'' [] [] else []) = Inr u1"
    "NewRequest (parse_url (library ?ctx)) ''GET'' u1 None = Inr r1"
    using example_request by blast
  have "Execute ?ctx (ListsList ''b1'' []) =
      Inr (\<lparr>stdout = [], stderr = ''Error: HTTP 404: '' @ ?body @ [CHR 0x0A]\<rparr>, 1)"
    by (rule listsList_404 [OF _ _ resolveCredentials_example _ q1 answer_answers]) simp_all
  then show ?thesis by (simp add: line_feeds_def)
qed

text \<open>Credentials that the service accepts are saved and reported.\<close>

lemma auth_setup_saved_example:
  "Execute (example_env (answer (Inr \<lparr>StatusCode = 200, Body = Inr ''{}''\<rparr>)) on_terminal)
      (AuthSetup ''0123456789abcdef'' ''fedcba9876543210'') =
     Inr (\<lparr>stdout = ''Credentials saved to /home/u/.config/trello/config.json'' @ [CHR 0x0A] @
              ''Authenticated as:  (@)'' @ [CHR 0x0A] @
              ''API key:          0123...cdef'' @ [CHR 0x0A] @
              ''API token:        fedc...3210'' @ [CHR 0x0A],
            stderr = []\<rparr>, 0)"
proof -
  let ?tr = "answer (Inr \<lparr>StatusCode = 200, Body = Inr ''{}''\<rparr>)"
  have g: "Get (example_library ?tr) c (''/members/'' @ ''me'') [] = Inr (Inr ''{}'')" for c
    by (rule Get_example_200)
  have "GetMember (example_library ?tr) c ''me'' [] =
      Inr (Some (Member.make [] [] [] [] [] [] [] None [] False), None)" for c
    using g [of c] by (simp add: GetMember_def example_library_def)
  then show ?thesis
    by (simp add: Execute_def rootCmd_Execute_def runAuthSetup_def example_env_def Let_def
        Print_def maskOrEmpty_def Member.make_def)
qed

text \<open>Labels are joined with a comma and a space, also next to an empty name.\<close>

lemma FormatLabels_examples:
  "FormatLabels [] = ''-''" "FormatLabels [''bug''] = ''bug''"
  "FormatLabels [''bug'', []] = ''bug, ''" "FormatLabels [[], []] = '', ''"
  "FormatLabels [''a'', ''b'', ''c''] = ''a, b, c''"
  by (simp_all add: FormatLabels_def)

end
